theory Spec2Isabelle
  imports Complex_Main "HOL-Library.Word"
begin

unbundle bit_operations_syntax

section \<open>The merge game: data model\<close>

text \<open>
  The development follows \<^verbatim>\<open>game.ts\<close> (the \<^verbatim>\<open>Game\<close> object), \<^verbatim>\<open>main.ts\<close> (the
  collision handler, \<^verbatim>\<open>addFruit\<close>, \<^verbatim>\<open>restartGame\<close>), \<^verbatim>\<open>constants.ts\<close>, \<^verbatim>\<open>types.ts\<close>
  and \<^verbatim>\<open>utils.ts\<close>.

  JavaScript numbers are modelled as follows: lengths, radii, scales and coordinates are
  \<open>real\<close>; scores, score values and merge counts are \<open>int\<close>; tier indices are \<open>nat\<close>.
  Rounding of doubles is not modelled. A body is a JavaScript object that several collision
  pairs may reference, so bodies live in a store (\<open>heap\<close>) indexed by reference, and the
  physics world is the list of references that \<^verbatim>\<open>Composite.add\<close> and
  \<^verbatim>\<open>Composite.remove\<close> maintain. Writes to DOM elements are left out, except the
  next-fruit image (it indexes the catalog) and the end title.
\<close>

datatype GameStates = MENU | READY | DROP | LOSE

datatype ShapeType = circle | custom

type_synonym Vector = "real \<times> real"

record FruitSize =
  image_path :: string
  textureSize :: real
  scoreValue :: int
  scale :: real
  physicsScale :: "real option"
  shapeType :: "ShapeType option"
  sides :: "int option"
  createVertices :: "(real \<Rightarrow> Vector list) option"
  radius :: "real option"

text \<open>
  A Matter.js body, with the fields the game reads, and the two fields \<^verbatim>\<open>types.d.ts\<close>
  adds. \<open>circleRadius\<close> is what the engine reports; \<open>None\<close> stands for a missing value.
\<close>

record Body =
  isStatic :: bool
  position_x :: real
  position_y :: real
  circleRadius :: "real option"
  vertices :: "Vector list"
  collisionMask :: "nat option"
  sizeIndex :: "nat option"
  popped :: bool

record ExtraConfig =
  cfg_isStatic :: "bool option"
  cfg_collisionMask :: "nat option"

record Game =
  stateIndex :: GameStates
  score :: int
  fruitsMerged :: "int list"
  fruitSizes :: "FruitSize list"
  currentFruitSize :: nat
  nextFruitSize :: nat
  cache_highscore :: int
  audioVolume :: real
  previewBall :: "nat option"
  nextFruitImg :: "string option"
  endTitle :: "string option"
  storage :: "int option"
  heap :: "nat \<Rightarrow> Body"
  nextRef :: nat
  world :: "nat list"
  runner_enabled :: bool
  rng :: nat
  isMobile :: bool
  engineRadius :: "Vector list \<Rightarrow> real option"

text \<open>
  A thrown exception carries the session as it was when the exception left the code: the
  mutations made before the throw stay. \<open>NaNStored\<close> is not an exception: it marks the one
  place where JavaScript would store \<^verbatim>\<open>NaN\<close> in the merge counts (an increment of a missing
  entry), which \<open>int\<close> cannot hold; the model stops there, with the session before the write.
\<close>

datatype error = TypeError | NaNStored

type_synonym 'a result = "(error \<times> Game) + 'a"

text \<open>The session a call leaves behind, whether it returned or threw.\<close>

fun after :: "Game result \<Rightarrow> Game" where
  "after (Inl e) = snd e"
| "after (Inr g) = g"

definition loseHeight :: real where
  "loseHeight = 84"

definition previewBallHeight :: real where
  "previewBallHeight = 32"

definition width :: real where
  "width = 640"

section \<open>utils.ts: mulberry32\<close>

text \<open>
  The closure variable \<^verbatim>\<open>a\<close> is a double that grows by \<^verbatim>\<open>0x6D2B79F5\<close> at each call
  (an exact integer below \<open>2^53\<close>); the bit operations and \<^verbatim>\<open>Math.imul\<close> work on its low 32
  bits. The result is the pair of the number returned and the new value of \<^verbatim>\<open>a\<close>.
\<close>

definition mulberry32 :: "nat \<Rightarrow> real \<times> nat" where
  "mulberry32 a =
     (let a' = a + 1831565813;
          t0 = (word_of_nat a' :: 32 word);
          t1 = (t0 XOR drop_bit 15 t0) * (t0 OR 1);
          t2 = t1 XOR (t1 + (t1 XOR drop_bit 7 t1) * (t1 OR 61))
      in (real (unat (t2 XOR drop_bit 14 t2)) / 4294967296, a'))"

section \<open>game.ts\<close>

subsection \<open>createCircleVertices\<close>

function vertices_loop :: "real \<Rightarrow> real \<Rightarrow> int \<Rightarrow> int \<Rightarrow> Vector list \<Rightarrow> Vector list" where
  "vertices_loop r angleStep actualSides i vs =
     (if i < actualSides
      then vertices_loop r angleStep actualSides (i + 1)
             (vs @ [(r * cos (real_of_int i * angleStep), r * sin (real_of_int i * angleStep))])
      else vs)"
  by pat_completeness auto
termination
  by (relation "measure (\<lambda>(r, angleStep, actualSides, i, vs). nat (actualSides - i))") auto

declare vertices_loop.simps [simp del]

definition createCircleVertices :: "bool \<Rightarrow> real \<Rightarrow> int option \<Rightarrow> Vector list" where
  "createCircleVertices mobile r sides_arg =
     (let actualSides = (case sides_arg of None \<Rightarrow> (if mobile then 12 else 20) | Some s \<Rightarrow> s);
          angleStep = (2 * pi) / real_of_int actualSides
      in vertices_loop r angleStep actualSides 0 [])"

subsection \<open>calculateScore, saveHighscore, loadHighscore\<close>

text \<open>
  \<^verbatim>\<open>fruitsMerged.reduce((total, count, sizeIndex) => ...)\<close>: the callback reads
  \<^verbatim>\<open>Game.fruitSizes[sizeIndex].scoreValue\<close>, a TypeError when the catalog has no such entry.
\<close>

fun reduce_score :: "FruitSize list \<Rightarrow> int \<Rightarrow> nat \<Rightarrow> int list \<Rightarrow> error + int" where
  "reduce_score fs tot i [] = Inr tot"
| "reduce_score fs tot i (cnt # rest) =
     (if i < length fs
      then reduce_score fs (tot + scoreValue (fs ! i) * cnt) (Suc i) rest
      else Inl TypeError)"

definition calculateScore :: "Game \<Rightarrow> Game result" where
  "calculateScore g =
     (case reduce_score (fruitSizes g) 0 0 (fruitsMerged g) of
        Inl e \<Rightarrow> Inl (e, g)
      | Inr s \<Rightarrow> Inr (g\<lparr>score := s\<rparr>))"

definition saveHighscore :: "Game \<Rightarrow> Game result" where
  "saveHighscore g =
     (case calculateScore g of
        Inl e \<Rightarrow> Inl e
      | Inr g1 \<Rightarrow>
          if score g1 < cache_highscore g1 then Inr g1
          else Inr (g1\<lparr>cache_highscore := score g1,
                       endTitle := (case endTitle g1 of None \<Rightarrow> None
                                    | Some t \<Rightarrow> Some ''New Highscore!''),
                       storage := Some (score g1)\<rparr>))"

definition loadHighscore :: "Game \<Rightarrow> Game result" where
  "loadHighscore g =
     (case storage g of
        None \<Rightarrow> saveHighscore g
      | Some h \<Rightarrow> Inr (g\<lparr>cache_highscore := h\<rparr>))"

subsection \<open>setNextFruitSize\<close>

definition setNextFruitSize :: "Game \<Rightarrow> Game result" where
  "setNextFruitSize g =
     (let (r, a') = mulberry32 (rng g);
          g1 = g\<lparr>rng := a', nextFruitSize := nat \<lfloor>r * 5\<rfloor>\<rparr>
      in case nextFruitImg g1 of
           None \<Rightarrow> Inr g1
         | Some src \<Rightarrow>
             if nextFruitSize g1 < length (fruitSizes g1)
             then Inr (g1\<lparr>nextFruitImg := Some (image_path (fruitSizes g1 ! nextFruitSize g1))\<rparr>)
             else Inl (TypeError, g1))"

subsection \<open>lookupFruitIndex\<close>

fun findIndex :: "('a \<Rightarrow> bool) \<Rightarrow> 'a list \<Rightarrow> nat option" where
  "findIndex P [] = None"
| "findIndex P (x # xs) =
     (if P x then Some 0 else (case findIndex P xs of None \<Rightarrow> None | Some i \<Rightarrow> Some (Suc i)))"

definition physicsRadius :: "FruitSize \<Rightarrow> real" where
  "physicsRadius sz =
     (let physScale = (case physicsScale sz of None \<Rightarrow> scale sz | Some p \<Rightarrow> p);
          physicsSize = textureSize sz * physScale
      in physicsSize / 2)"

definition tolerance :: real where
  "tolerance = 0.5"

definition lookupFruitIndex :: "Game \<Rightarrow> real \<Rightarrow> nat option" where
  "lookupFruitIndex g r =
     (case findIndex (\<lambda>sz. \<bar>physicsRadius sz - r\<bar> < tolerance) (fruitSizes g) of
        None \<Rightarrow> None
      | Some i \<Rightarrow> if int i = int (length (fruitSizes g)) - 1 then None else Some i)"

subsection \<open>generateFruitBody\<close>

text \<open>
  \<^verbatim>\<open>Bodies.fromVertices\<close> makes a new body object (\<open>fromVertices\<close>, with the two fruit
  fields that \<^verbatim>\<open>generateFruitBody\<close> sets on it): the model allocates it at \<open>nextRef\<close> and
  returns the reference. The body takes its position and the extra configuration from the
  call. The game does not set \<^verbatim>\<open>circleRadius\<close> on it: what the engine reports there for a
  body made from vertices is the session's \<open>engineRadius\<close>, a parameter of the model.
  Matter.js reports none (the field keeps its default 0); \<open>engine_silent\<close> below says so,
  and the properties that depend on it assume it.
\<close>

definition fruitVertices :: "bool \<Rightarrow> FruitSize \<Rightarrow> real \<Rightarrow> Vector list" where
  "fruitVertices mobile config r =
     (case (shapeType config, createVertices config) of
        (Some custom, Some f) \<Rightarrow> f r
      | _ \<Rightarrow> createCircleVertices mobile r (Some (case sides config of None \<Rightarrow> 32 | Some s \<Rightarrow> s)))"

definition fromVertices ::
    "(Vector list \<Rightarrow> real option) \<Rightarrow> real \<Rightarrow> real \<Rightarrow> Vector list \<Rightarrow> ExtraConfig \<Rightarrow> nat \<Rightarrow> Body" where
  "fromVertices reported x y vs extraConfig idx =
     \<lparr>isStatic = (case cfg_isStatic extraConfig of None \<Rightarrow> False | Some b \<Rightarrow> b),
      position_x = x, position_y = y, circleRadius = reported vs, vertices = vs,
      collisionMask = cfg_collisionMask extraConfig,
      sizeIndex = Some idx, popped = False\<rparr>"

definition generateFruitBody ::
    "Game \<Rightarrow> real \<Rightarrow> real \<Rightarrow> nat \<Rightarrow> ExtraConfig \<Rightarrow> (nat \<times> Game) result" where
  "generateFruitBody g x y idx extraConfig =
     (if idx < length (fruitSizes g) then
        let config = fruitSizes g ! idx;
            r = physicsRadius config;
            config' = config\<lparr>radius := Some r\<rparr>;
            vs = fruitVertices (isMobile g) config r;
            body = fromVertices (engineRadius g) x y vs extraConfig idx;
            ref = nextRef g
        in Inr (ref, g\<lparr>fruitSizes := (fruitSizes g)[idx := config'],
                       heap := (heap g)(ref := body),
                       nextRef := Suc ref\<rparr>)
      else Inl (TypeError, g))"

definition noConfig :: ExtraConfig where
  "noConfig = \<lparr>cfg_isStatic = None, cfg_collisionMask = None\<rparr>"

subsection \<open>loseGame\<close>

text \<open>\<^verbatim>\<open>main.ts\<close> wraps the \<^verbatim>\<open>loseGame\<close> of \<^verbatim>\<open>game.ts\<close> and then disables the runner.\<close>

definition originalLoseGame :: "Game \<Rightarrow> Game result" where
  "originalLoseGame g = saveHighscore (g\<lparr>stateIndex := LOSE\<rparr>)"

definition loseGame :: "Game \<Rightarrow> Game result" where
  "loseGame g =
     (case originalLoseGame g of
        Inl e \<Rightarrow> Inl e
      | Inr g1 \<Rightarrow> Inr (g1\<lparr>runner_enabled := False\<rparr>))"

section \<open>main.ts\<close>

subsection \<open>Composite.add, Composite.remove\<close>

text \<open>
  \<^verbatim>\<open>Composite.add\<close> appends a body to the world; \<^verbatim>\<open>Composite.remove\<close> takes out the
  first occurrence of each body it is given, and does nothing for a body that is absent.
\<close>

definition Composite_add :: "Game \<Rightarrow> nat list \<Rightarrow> Game" where
  "Composite_add g refs = g\<lparr>world := world g @ refs\<rparr>"

definition Composite_remove :: "Game \<Rightarrow> nat list \<Rightarrow> Game" where
  "Composite_remove g refs = g\<lparr>world := fold remove1 refs (world g)\<rparr>"

subsection \<open>addPop\<close>

text \<open>
  The pop effect is a static circle of radius \<open>r\<close> without fruit fields; its angle draws one
  number from the generator. It is removed by \<open>addPop_timeout\<close>, 100 ms later.
\<close>

definition popCircle :: "real \<Rightarrow> real \<Rightarrow> real \<Rightarrow> Body" where
  "popCircle x y r =
     \<lparr>isStatic = True, position_x = x, position_y = y, circleRadius = Some r,
      vertices = [], collisionMask = Some 64, sizeIndex = None, popped = False\<rparr>"

definition addPop :: "Game \<Rightarrow> real \<Rightarrow> real \<Rightarrow> real \<Rightarrow> Game" where
  "addPop g x y r =
     (let (rv, a') = mulberry32 (rng g);
          ref = nextRef g
      in Composite_add
           (g\<lparr>rng := a', heap := (heap g)(ref := popCircle x y r), nextRef := Suc ref\<rparr>) [ref])"

definition addPop_timeout :: "Game \<Rightarrow> nat \<Rightarrow> Game" where
  "addPop_timeout g ref = Composite_remove g [ref]"

subsection \<open>The collisionStart handler\<close>

text \<open>\<^verbatim>\<open>body.circleRadius || 0\<close>: a missing radius counts as 0.\<close>

definition circleRadiusOr0 :: "Body \<Rightarrow> real" where
  "circleRadiusOr0 b = (case circleRadius b of None \<Rightarrow> 0 | Some r \<Rightarrow> r)"

text \<open>\<^verbatim>\<open>Game.sounds\<close> has the keys \<^verbatim>\<open>pop0\<close> to \<^verbatim>\<open>pop10\<close>.\<close>

definition hasPopSound :: "nat \<Rightarrow> bool" where
  "hasPopSound i = (i \<le> 10)"

text \<open>How one turn of the \<^verbatim>\<open>for\<close> loop ends: \<^verbatim>\<open>continue\<close> (or its end), or \<^verbatim>\<open>return\<close>.\<close>

datatype control = Continue Game | Return Game

fun game_of :: "control \<Rightarrow> Game" where
  "game_of (Continue g) = g"
| "game_of (Return g) = g"

text \<open>The session a turn leaves behind, whether it ended normally or by an exception.\<close>

fun outcome_state :: "control result \<Rightarrow> Game" where
  "outcome_state (Inl e) = snd e"
| "outcome_state (Inr c) = game_of c"

text \<open>
  The end of a merge, from \<^verbatim>\<open>Composite.remove(engine.world, [bodyA, bodyB])\<close> to the last
  \<^verbatim>\<open>Game.calculateScore()\<close>: the two inputs leave the world, the successor and the pop
  effect enter it, the score is recomputed. \<open>rA\<close> is \<^verbatim>\<open>bodyA.circleRadius || 0\<close>.
\<close>

definition replaceFruits ::
    "Game \<Rightarrow> nat \<Rightarrow> nat \<Rightarrow> nat \<Rightarrow> real \<Rightarrow> real \<Rightarrow> real \<Rightarrow> control result" where
  "replaceFruits g refA refB newSize midPosX midPosY rA =
     (let g1 = Composite_remove g [refA, refB] in
      case generateFruitBody g1 midPosX midPosY newSize noConfig of
        Inl e \<Rightarrow> Inl e
      | Inr (ref, g2) \<Rightarrow>
          let g3 = Composite_add g2 [ref];
              g4 = addPop g3 midPosX midPosY rA
          in (case calculateScore g4 of
                Inl e \<Rightarrow> Inl e
              | Inr g5 \<Rightarrow> Inr (Continue g5)))"

text \<open>
  The merge of a pair that passed every filter, from
  \<^verbatim>\<open>let newSize = fruitA.sizeIndex + 1\<close> on; \<open>sA\<close> is \<^verbatim>\<open>fruitA.sizeIndex\<close>. Reading the
  radius of the last tier throws when the catalog is empty; the pop sound is looked up
  when the volume is positive. The branch \<open>NaNStored\<close> is the increment of a counter that
  does not exist: there JavaScript would store \<^verbatim>\<open>NaN\<close> and go on with the merge, and the
  model stops. No run from page load takes it (\<open>collisionStart_never_NaNStored\<close> below),
  since bodies get their tier from \<open>generateFruitBody\<close>, which refuses a tier outside the
  catalog, and \<open>initGame\<close> and \<open>restartGame\<close> make one counter per tier.
\<close>

definition mergeFruits :: "Game \<Rightarrow> nat \<Rightarrow> nat \<Rightarrow> nat \<Rightarrow> control result" where
  "mergeFruits g refA refB sA =
     (let bodyA = heap g refA; bodyB = heap g refB in
      if fruitSizes g = [] then Inl (TypeError, g) else
      let maxRadius = radius (fruitSizes g ! (length (fruitSizes g) - 1));
          newSize = (if (case maxRadius of None \<Rightarrow> False
                         | Some m \<Rightarrow> m \<noteq> 0 \<and> circleRadiusOr0 bodyA \<ge> m)
                     then 0 else sA + 1)
      in
      if \<not> sA < length (fruitsMerged g) then Inl (NaNStored, g) else
      let g1 = g\<lparr>fruitsMerged := (fruitsMerged g)[sA := fruitsMerged g ! sA + 1]\<rparr>;
          midPosX = (position_x bodyA + position_x bodyB) / 2;
          midPosY = (position_y bodyA + position_y bodyB) / 2;
          g2 = g1\<lparr>heap := (heap g1)(refA := (heap g1 refA)\<lparr>popped := True\<rparr>)\<rparr>;
          g3 = g2\<lparr>heap := (heap g2)(refB := (heap g2 refB)\<lparr>popped := True\<rparr>)\<rparr>
      in
      if audioVolume g3 > 0 \<and> \<not> hasPopSound sA then Inl (TypeError, g3)
      else replaceFruits g3 refA refB newSize midPosX midPosY (circleRadiusOr0 bodyA))"

definition collisionPair :: "Game \<Rightarrow> nat \<times> nat \<Rightarrow> control result" where
  "collisionPair g p =
     (let bodyA = heap g (fst p); bodyB = heap g (snd p) in
      if isStatic bodyA \<or> isStatic bodyB then Inr (Continue g) else
      let aY = position_y bodyA + circleRadiusOr0 bodyA;
          bY = position_y bodyB + circleRadiusOr0 bodyB
      in
      if aY < loseHeight \<or> bY < loseHeight then
        (case loseGame g of Inl e \<Rightarrow> Inl e | Inr g' \<Rightarrow> Inr (Return g'))
      else
        (case (sizeIndex bodyA, sizeIndex bodyB) of
           (Some sA, Some sB) \<Rightarrow>
             if sA \<noteq> sB then Inr (Continue g)
             else if popped bodyA \<or> popped bodyB then Inr (Continue g)
             else mergeFruits g (fst p) (snd p) sA
         | _ \<Rightarrow> Inr (Continue g)))"

fun collisionLoop :: "Game \<Rightarrow> (nat \<times> nat) list \<Rightarrow> control result" where
  "collisionLoop g [] = Inr (Continue g)"
| "collisionLoop g (p # ps) =
     (case collisionPair g p of
        Inr (Continue g') \<Rightarrow> collisionLoop g' ps
      | other \<Rightarrow> other)"

definition collisionStart :: "Game \<Rightarrow> (nat \<times> nat) list \<Rightarrow> Game result" where
  "collisionStart g pairs =
     (case collisionLoop g pairs of Inl e \<Rightarrow> Inl e | Inr c \<Rightarrow> Inr (game_of c))"

subsection \<open>addFruit\<close>

text \<open>
  \<open>x\<close> is the pointer position of the \<^verbatim>\<open>mouseup\<close> event and \<open>mouseX\<close> is
  \<^verbatim>\<open>render.mouse.position.x\<close>. The callback that \<^verbatim>\<open>setTimeout\<close> runs 500 ms later is
  \<open>addFruit_timeout\<close>.
\<close>

definition addFruit :: "Game \<Rightarrow> real \<Rightarrow> real \<Rightarrow> Game result" where
  "addFruit g x mouseX =
     (if stateIndex g \<noteq> READY then Inr g else
      let g1 = g\<lparr>stateIndex := DROP\<rparr> in
      case generateFruitBody g1 x previewBallHeight (currentFruitSize g1) noConfig of
        Inl e \<Rightarrow> Inl e
      | Inr (latestFruit, g2) \<Rightarrow>
          let g3 = Composite_add g2 [latestFruit];
              g4 = g3\<lparr>currentFruitSize := nextFruitSize g3\<rparr>
          in (case setNextFruitSize g4 of
                Inl e \<Rightarrow> Inl e
              | Inr g5 \<Rightarrow>
                  (case calculateScore g5 of
                     Inl e \<Rightarrow> Inl e
                   | Inr g6 \<Rightarrow>
                       let g7 = (case previewBall g6 of None \<Rightarrow> g6
                                 | Some pb \<Rightarrow> Composite_remove g6 [pb])
                       in (case generateFruitBody g7 mouseX previewBallHeight (currentFruitSize g7)
                                  \<lparr>cfg_isStatic = Some True, cfg_collisionMask = Some 64\<rparr> of
                             Inl e \<Rightarrow> Inl e
                           | Inr (pb', g8) \<Rightarrow> Inr (g8\<lparr>previewBall := Some pb'\<rparr>)))))"

definition addFruit_timeout :: "Game \<Rightarrow> Game" where
  "addFruit_timeout g =
     (case previewBall g of
        Some pb \<Rightarrow>
          if stateIndex g = DROP then (Composite_add g [pb])\<lparr>stateIndex := READY\<rparr> else g
      | None \<Rightarrow> g)"

subsection \<open>startGame, restartGame, the pointer\<close>

text \<open>The callback of the 250 ms timer that both \<^verbatim>\<open>startGame\<close> and \<^verbatim>\<open>restartGame\<close> set.\<close>

definition ready_timeout :: "Game \<Rightarrow> Game" where
  "ready_timeout g = g\<lparr>stateIndex := READY\<rparr>"

definition startGame :: "Game \<Rightarrow> nat list \<Rightarrow> Game result" where
  "startGame g statics =
     (let g1 = Composite_add g statics in
      case calculateScore g1 of
        Inl e \<Rightarrow> Inl e
      | Inr g2 \<Rightarrow>
          let g3 = g2\<lparr>endTitle := (case endTitle g2 of None \<Rightarrow> None
                                     | Some t \<Rightarrow> Some ''Game Over!'')\<rparr>
          in (case generateFruitBody g3 (width / 2) previewBallHeight 0
                     \<lparr>cfg_isStatic = Some True, cfg_collisionMask = None\<rparr> of
                Inl e \<Rightarrow> Inl e
              | Inr (pb, g4) \<Rightarrow> Inr (Composite_add (g4\<lparr>previewBall := Some pb\<rparr>) [pb])))"

definition restartGame :: "Game \<Rightarrow> Game result" where
  "restartGame g =
     (let dynamicBodies = filter (\<lambda>ref. \<not> isStatic (heap g ref)) (world g);
          g1 = Composite_remove g dynamicBodies;
          g2 = g1\<lparr>score := 0, fruitsMerged := replicate (length (fruitSizes g1)) 0\<rparr>
      in case calculateScore g2 of
           Inl e \<Rightarrow> Inl e
         | Inr g3 \<Rightarrow>
             (case generateFruitBody g3 (width / 2) previewBallHeight 0
                     \<lparr>cfg_isStatic = Some True, cfg_collisionMask = None\<rparr> of
                Inl e \<Rightarrow> Inl e
              | Inr (pb, g4) \<Rightarrow>
                  let g5 = Composite_add (g4\<lparr>previewBall := Some pb\<rparr>) [pb] in
                  (case setNextFruitSize g5 of
                     Inl e \<Rightarrow> Inl e
                   | Inr g6 \<Rightarrow>
                       let g7 = g6\<lparr>currentFruitSize := nextFruitSize g6\<rparr> in
                       (case setNextFruitSize g7 of
                          Inl e \<Rightarrow> Inl e
                        | Inr g8 \<Rightarrow> Inr (g8\<lparr>runner_enabled := True\<rparr>)))))"

definition mousemove :: "Game \<Rightarrow> real \<Rightarrow> Game" where
  "mousemove g mouseX =
     (if stateIndex g \<noteq> READY then g else
      case previewBall g of
        None \<Rightarrow> g
      | Some pb \<Rightarrow> g\<lparr>heap := (heap g)(pb := (heap g pb)\<lparr>position_x := mouseX\<rparr>)\<rparr>)"

subsection \<open>initGame\<close>

definition initGame :: "Game \<Rightarrow> Game result" where
  "initGame g =
     (case loadHighscore g of
        Inl e \<Rightarrow> Inl e
      | Inr g1 \<Rightarrow> Inr (g1\<lparr>fruitsMerged := replicate (length (fruitSizes g1)) 0\<rparr>))"

section \<open>The default catalog and the session at page load\<close>

definition mkFruit :: "string \<Rightarrow> real \<Rightarrow> int \<Rightarrow> real \<Rightarrow> FruitSize" where
  "mkFruit img ts sv sc =
     \<lparr>image_path = img, textureSize = ts, scoreValue = sv, scale = sc, physicsScale = None,
      shapeType = None, sides = None, createVertices = None, radius = None\<rparr>"

definition defaultFruitSizes :: "FruitSize list" where
  "defaultFruitSizes =
     [mkFruit ''./assets/img/circle0.png'' 1024 2 0.047,
      mkFruit ''./assets/img/circle1.png'' 150 5 0.426,
      mkFruit ''./assets/img/circle2.png'' 228 9 0.351,
      mkFruit ''./assets/img/circle3.png'' 225 13 0.498,
      mkFruit ''./assets/img/circle4.png'' 286 18 0.448,
      mkFruit ''./assets/img/circle5.png'' 350 25 0.411,
      mkFruit ''./assets/img/circle6.png'' 418 34 0.402,
      mkFruit ''./assets/img/circle7.png'' 484 41 0.397,
      mkFruit ''./assets/img/circle8.png'' 609 49 0.420,
      mkFruit ''./assets/img/circle9.png'' 661 58 0.484,
      mkFruit ''./assets/img/circle10.png'' 778 65 0.493]"

text \<open>
  A static rectangle of \<^verbatim>\<open>physics.ts\<close> (a wall or the floor): no circle radius and no fruit
  fields.
\<close>

definition staticBody :: "real \<Rightarrow> real \<Rightarrow> Body" where
  "staticBody x y =
     \<lparr>isStatic = True, position_x = x, position_y = y, circleRadius = None, vertices = [],
      collisionMask = None, sizeIndex = None, popped = False\<rparr>"

definition gameStatics :: "nat list" where
  "gameStatics = [0, 1, 2]"

text \<open>
  The \<^verbatim>\<open>Game\<close> object literal, with the three bodies of \<^verbatim>\<open>gameStatics\<close> allocated at the
  references 0, 1 and 2. The seed of the generator (\<^verbatim>\<open>Date.now()\<close>), the stored highscore,
  the stored audio volume and the engine's report of circle radii come from the environment.
\<close>

definition Game_object ::
    "nat \<Rightarrow> int option \<Rightarrow> real \<Rightarrow> (Vector list \<Rightarrow> real option) \<Rightarrow> Game" where
  "Game_object seed stored volume reported =
     \<lparr>stateIndex = MENU, score = 0, fruitsMerged = [], fruitSizes = defaultFruitSizes,
      currentFruitSize = 0, nextFruitSize = 0, cache_highscore = 0, audioVolume = volume,
      previewBall = None, nextFruitImg = Some [], endTitle = Some [],
      storage = stored,
      heap = (\<lambda>ref. staticBody 0 0)(0 := staticBody (- 32) 480, 1 := staticBody 672 480,
                                      2 := staticBody 320 944),
      nextRef = 3, world = [], runner_enabled = True, rng = seed, isMobile = False,
      engineRadius = reported\<rparr>"

section \<open>Events\<close>

text \<open>
  What the browser can call, in any order: the two buttons, the pointer, the engine's
  collision batches and the three timers. An exception that leaves a handler is not caught
  by the game; the page goes on with the session as the handler left it.
\<close>

datatype event =
    StartGame
  | RestartGame
  | MouseUp real real
  | MouseMove real
  | CollisionStart "(nat \<times> nat) list"
  | ReadyTimeout
  | DropTimeout
  | PopTimeout nat

fun fire :: "Game \<Rightarrow> event \<Rightarrow> Game" where
  "fire g StartGame = after (startGame g gameStatics)"
| "fire g RestartGame = after (restartGame g)"
| "fire g (MouseUp x mouseX) = after (addFruit g x mouseX)"
| "fire g (MouseMove mouseX) = mousemove g mouseX"
| "fire g (CollisionStart pairs) = after (collisionStart g pairs)"
| "fire g ReadyTimeout = ready_timeout g"
| "fire g DropTimeout = addFruit_timeout g"
| "fire g (PopTimeout ref) = addPop_timeout g ref"

definition run :: "Game \<Rightarrow> event list \<Rightarrow> Game" where
  "run g evs = foldl fire g evs"

section \<open>Notions used to state the properties\<close>

text \<open>
  \<open>session_ok\<close>: the session has one merge counter per tier, as \<^verbatim>\<open>initGame\<close> and
  \<^verbatim>\<open>restartGame\<close> leave it, and no more tiers than the eleven that have a pop sound.
\<close>

definition session_ok :: "Game \<Rightarrow> bool" where
  "session_ok g =
     (length (fruitsMerged g) = length (fruitSizes g) \<and> length (fruitSizes g) \<le> 11)"

text \<open>The sum that \<open>reduce_score\<close> computes: each count times the score value of its own tier.\<close>

definition scoreSum :: "FruitSize list \<Rightarrow> int list \<Rightarrow> int" where
  "scoreSum fs cs = (\<Sum>k<length cs. cs ! k * scoreValue (fs ! k))"

text \<open>
  \<open>stored_ok\<close>: the highscore in local storage, if there is one, is not above the one in
  \<^verbatim>\<open>Game.cache\<close> (so after \<open>loadHighscore\<close>). \<open>saveHighscore_calls\<close> is a sequence of calls
  of \<open>saveHighscore\<close>, the merge counts (and with them the current score) being replaced by
  any other before each call.
\<close>

definition stored_ok :: "Game \<Rightarrow> bool" where
  "stored_ok g = (\<forall>h. storage g = Some h \<longrightarrow> h \<le> cache_highscore g)"

fun saveHighscore_calls :: "Game \<Rightarrow> int list list \<Rightarrow> Game" where
  "saveHighscore_calls g [] = g"
| "saveHighscore_calls g (counts # rest) =
     saveHighscore_calls (after (saveHighscore (g\<lparr>fruitsMerged := counts\<rparr>))) rest"

text \<open>
  \<open>keeps_tiers g s\<close>: from \<open>g\<close> to \<open>s\<close> the two queued tiers and the sizes of the catalog and
  of the merge counts are unchanged.
\<close>

definition keeps_tiers :: "Game \<Rightarrow> Game \<Rightarrow> bool" where
  "keeps_tiers g s =
     (currentFruitSize s = currentFruitSize g \<and> nextFruitSize s = nextFruitSize g \<and>
      length (fruitSizes s) = length (fruitSizes g) \<and>
      length (fruitsMerged s) = length (fruitsMerged g))"

text \<open>
  The bodies taken as merge inputs while a batch is processed, in the order of the batch.
  A turn of the loop is a merge when it changes the merge counts; the two bodies of its
  pair are then the inputs.
\<close>

fun mergeInputs :: "Game \<Rightarrow> (nat \<times> nat) list \<Rightarrow> nat list" where
  "mergeInputs g [] = []"
| "mergeInputs g (p # ps) =
     (if fruitsMerged (outcome_state (collisionPair g p)) \<noteq> fruitsMerged g
      then [fst p, snd p] else []) @
     (case collisionPair g p of Inr (Continue g') \<Rightarrow> mergeInputs g' ps | _ \<Rightarrow> [])"

text \<open>
  \<open>tier_inv\<close>: the tier to drop and the queued tier are among the five smallest, the catalog
  has its eleven tiers, and there are no more merge counters than tiers. \<open>page_load\<close> is
  the session once \<^verbatim>\<open>main.ts\<close> has run \<open>initGame\<close> on the \<^verbatim>\<open>Game\<close> object.
\<close>

definition tier_inv :: "Game \<Rightarrow> bool" where
  "tier_inv g =
     (currentFruitSize g < 5 \<and> nextFruitSize g < 5 \<and> length (fruitSizes g) = 11 \<and>
      length (fruitsMerged g) \<le> 11)"

definition page_load ::
    "nat \<Rightarrow> int option \<Rightarrow> real \<Rightarrow> (Vector list \<Rightarrow> real option) \<Rightarrow> Game" where
  "page_load seed stored volume reported =
     after (initGame (Game_object seed stored volume reported))"

text \<open>
  \<open>engine_silent\<close>: the engine reports no circle radius for a body made from vertices.
  \<^verbatim>\<open>generateFruitBody\<close> passes none to \<^verbatim>\<open>Bodies.fromVertices\<close>, and Matter.js then leaves
  the field at its default 0; only \<^verbatim>\<open>Bodies.circle\<close>, which the game calls for the static
  pop effect alone, sets one.

  \<open>as_built\<close>: the bodies and the catalog are as the handlers build them. The session has
  one merge counter per tier; every non-static body has been allocated, is of a tier of the
  catalog if it is a fruit, and reports no circle radius if the engine is silent in the
  sense above; and the computed radius of every tier is positive, as is every radius cached
  on a tier. \<open>as_built_run\<close> below shows that every session reached from page load is of
  this kind.
\<close>

definition engine_silent :: "(Vector list \<Rightarrow> real option) \<Rightarrow> bool" where
  "engine_silent reported = (\<forall>vs. reported vs = None \<or> reported vs = Some 0)"

definition as_built :: "Game \<Rightarrow> bool" where
  "as_built g =
     (session_ok g \<and>
      (\<forall>r. \<not> isStatic (heap g r) \<longrightarrow>
             r < nextRef g \<and>
             (engine_silent (engineRadius g) \<longrightarrow> circleRadiusOr0 (heap g r) = 0) \<and>
             (\<forall>i. sizeIndex (heap g r) = Some i \<longrightarrow> i < length (fruitSizes g))) \<and>
      (\<forall>f\<in>set (fruitSizes g). 0 < physicsRadius f \<and> (\<forall>m. radius f = Some m \<longrightarrow> 0 < m)))"

text \<open>
  \<open>world_ok\<close>: the world is as the handlers build it. The three walls and the preview ball
  are allocated and static; the world lists allocated bodies only, and lists no non-static
  body twice. \<open>world_ok_run\<close> below shows that every session reached from page load is of
  this kind.
\<close>

definition world_ok :: "Game \<Rightarrow> bool" where
  "world_ok g =
     ((\<forall>r\<in>set gameStatics. r < nextRef g \<and> isStatic (heap g r)) \<and>
      (\<forall>r\<in>set (world g). r < nextRef g) \<and>
      distinct (filter (\<lambda>r. \<not> isStatic (heap g r)) (world g)) \<and>
      (\<forall>pb. previewBall g = Some pb \<longrightarrow> pb < nextRef g \<and> isStatic (heap g pb)))"

section \<open>Example sessions\<close>

text \<open>
  A fruit body with the given tier, position and reported circle radius, and a session in
  play that holds three of them at the references 3, 4 and 5, besides the three walls.
  The bodies of the examples report no circle radius, as bodies made from vertices do.
\<close>

definition fruitAt :: "nat \<Rightarrow> real \<Rightarrow> real \<Rightarrow> real option \<Rightarrow> Body" where
  "fruitAt idx x y r =
     \<lparr>isStatic = False, position_x = x, position_y = y, circleRadius = r, vertices = [],
      collisionMask = None, sizeIndex = Some idx, popped = False\<rparr>"

definition playing :: "FruitSize list \<Rightarrow> Body \<Rightarrow> Body \<Rightarrow> Body \<Rightarrow> Game" where
  "playing fs A B C =
     (Game_object 1 None 0.7 (\<lambda>vs. None))
       \<lparr>stateIndex := READY, fruitsMerged := replicate (length fs) 0, fruitSizes := fs,
        heap := (heap (Game_object 1 None 0.7 (\<lambda>vs. None)))(3 := A, 4 := B, 5 := C),
        nextRef := 6, world := [0, 1, 2, 3, 4, 5]\<rparr>"

definition merge_example :: Game where
  "merge_example =
     playing defaultFruitSizes (fruitAt 0 100 500 None) (fruitAt 0 140 520 None)
       (fruitAt 0 120 540 None)"

text \<open>
  \<open>cachedFruitSizes\<close> is the default catalog once a body of every tier has been made:
  \<open>generateFruitBody\<close> has written the computed radius onto each tier. In \<open>top_example\<close>
  three fruits of the last tier (radius 191.777) are in play, the second in contact with
  the first and with the third; the merge counts are those of the merges that lead to three
  such fruits when only fruits of tier 4 are dropped, and the score is the one
  \<open>calculateScore\<close> gives for these counts.
\<close>

definition cachedFruitSizes :: "FruitSize list" where
  "cachedFruitSizes = map (\<lambda>f. f\<lparr>radius := Some (physicsRadius f)\<rparr>) defaultFruitSizes"

definition top_example :: Game where
  "top_example =
     (playing cachedFruitSizes (fruitAt 10 192 720 None) (fruitAt 10 448 435 None)
        (fruitAt 10 192 150 None))
       \<lparr>score := 4704, fruitsMerged := [0, 0, 0, 0, 96, 48, 24, 12, 6, 3, 0]\<rparr>"

text \<open>
  \<open>threeTiers\<close> is a catalog of three tiers with the score values 2, 5 and 9. In
  \<open>lose_example\<close> the first fruit is centred at height 50.
\<close>

definition threeTiers :: "FruitSize list" where
  "threeTiers = [mkFruit ''a'' 100 2 0.5, mkFruit ''b'' 100 5 0.8, mkFruit ''c'' 100 9 1]"

definition scenario :: Game where
  "scenario =
     playing threeTiers (fruitAt 0 100 500 None) (fruitAt 0 140 520 None) (fruitAt 1 300 540 None)"

definition lose_example :: Game where
  "lose_example =
     playing defaultFruitSizes (fruitAt 0 100 50 None) (fruitAt 0 140 520 None)
       (fruitAt 0 120 540 None)"

section \<open>Auxiliary facts\<close>

subsection \<open>The generator\<close>

lemma mulberry32_snd: "snd (mulberry32 a) = a + 1831565813"
  by (simp add: mulberry32_def Let_def)

lemma mulberry32_range: "0 \<le> fst (mulberry32 a) \<and> fst (mulberry32 a) < 1"
proof -
  obtain w :: "32 word" where w: "fst (mulberry32 a) = real (unat w) / 4294967296"
    by (simp add: mulberry32_def Let_def)
  have "unat w < 4294967296"
    using unsigned_less [of w] by simp
  then have "real (unat w) < 4294967296"
    by (simp del: of_nat_unat)
  moreover have "0 \<le> real (unat w)"
    by (simp del: of_nat_unat)
  ultimately show ?thesis
    unfolding w by (simp del: of_nat_unat)
qed

lemma floor_times_five: "0 \<le> (r::real) \<Longrightarrow> r < 1 \<Longrightarrow> nat \<lfloor>r * 5\<rfloor> < 5"
proof -
  assume "0 \<le> r" and "r < 1"
  then have "r * 5 < 5" by simp
  then have "\<lfloor>r * 5\<rfloor> < 5" by (simp add: floor_less_iff)
  then show ?thesis by linarith
qed

lemma setNextFruitSize_below_five: "nextFruitSize (after (setNextFruitSize g)) < 5"
  using mulberry32_range [of "rng g"] floor_times_five [of "fst (mulberry32 (rng g))"]
  by (auto simp: setNextFruitSize_def Let_def split_beta split: option.splits)

subsection \<open>The score as a sum\<close>

lemma reduce_score_sum:
  "i + length cs \<le> length fs \<Longrightarrow>
   reduce_score fs tot i cs = Inr (tot + (\<Sum>k<length cs. cs ! k * scoreValue (fs ! (i + k))))"
proof (induction cs arbitrary: tot i)
  case Nil
  then show ?case by simp
next
  case (Cons c cs)
  then show ?case
    by (simp add: sum.lessThan_Suc_shift mult.commute add.assoc del: sum.lessThan_Suc)
qed

subsection \<open>The vertex loop\<close>

lemma vertices_loop_map:
  "0 \<le> i \<Longrightarrow> i \<le> n \<Longrightarrow>
   vertices_loop r st n i vs =
     vs @ map (\<lambda>k. (r * cos (real k * st), r * sin (real k * st))) [nat i..<nat n]"
proof (induction r st n i vs rule: vertices_loop.induct)
  case (1 r st n i vs)
  show ?case
  proof (cases "i < n")
    case True
    with 1 have "vertices_loop r st n i vs =
        (vs @ [(r * cos (real_of_int i * st), r * sin (real_of_int i * st))]) @
         map (\<lambda>k. (r * cos (real k * st), r * sin (real k * st))) [nat (i + 1)..<nat n]"
      by (subst vertices_loop.simps) simp
    moreover have "[nat i..<nat n] = nat i # [nat (i + 1)..<nat n]"
      using True 1(2) by (simp add: upt_conv_Cons nat_add_distrib)
    ultimately show ?thesis using 1(2) by simp
  next
    case False
    with 1 show ?thesis by (subst vertices_loop.simps) simp
  qed
qed

lemma createCircleVertices_map:
  "0 \<le> s \<Longrightarrow> createCircleVertices mobile r (Some s) =
     map (\<lambda>k. (r * cos (real k * (2 * pi / real_of_int s)),
               r * sin (real k * (2 * pi / real_of_int s)))) [0..<nat s]"
  by (simp add: createCircleVertices_def vertices_loop_map)

subsection \<open>Stages of the handlers\<close>

lemma scoreValue_radius_update:
  "k < length fs \<Longrightarrow> scoreValue (fs[i := (fs ! i)\<lparr>radius := r\<rparr>] ! k) = scoreValue (fs ! k)"
  by (cases "k = i") simp_all

lemma reduce_score_list_update:
  "reduce_score (fs[i := (fs ! i)\<lparr>radius := r\<rparr>]) tot k cs = reduce_score fs tot k cs"
  by (induction cs arbitrary: tot k) (simp_all add: scoreValue_radius_update)

lemma reduce_score_error: "reduce_score fs tot i cs = Inl e \<Longrightarrow> e = TypeError"
  by (induction cs arbitrary: tot i) (auto split: if_splits)

lemma calculateScore_cases:
  "calculateScore g = Inl (TypeError, g) \<or> (\<exists>s. calculateScore g = Inr (g\<lparr>score := s\<rparr>))"
proof (cases "reduce_score (fruitSizes g) 0 0 (fruitsMerged g)")
  case (Inl e)
  then show ?thesis using reduce_score_error [OF Inl] by (simp add: calculateScore_def)
next
  case (Inr s)
  then show ?thesis by (auto simp add: calculateScore_def)
qed

lemma scoreSum_radius_update:
  "length cs \<le> length fs \<Longrightarrow> scoreSum (fs[i := (fs ! i)\<lparr>radius := r\<rparr>]) cs = scoreSum fs cs"
  unfolding scoreSum_def by (rule sum.cong) (simp_all add: scoreValue_radius_update)

lemma calculateScore_ok:
  "length (fruitsMerged g) \<le> length (fruitSizes g) \<Longrightarrow>
   calculateScore g = Inr (g\<lparr>score := scoreSum (fruitSizes g) (fruitsMerged g)\<rparr>)"
  by (simp add: calculateScore_def scoreSum_def reduce_score_sum [of 0, simplified])

lemma generateFruitBody_ok:
  "idx < length (fruitSizes g) \<Longrightarrow>
   generateFruitBody g x y idx cfg =
     Inr (nextRef g,
          g\<lparr>fruitSizes := (fruitSizes g)[idx := (fruitSizes g ! idx)
                               \<lparr>radius := Some (physicsRadius (fruitSizes g ! idx))\<rparr>],
            heap := (heap g)(nextRef g :=
               fromVertices (engineRadius g) x y (fruitVertices (isMobile g) (fruitSizes g ! idx)
                  (physicsRadius (fruitSizes g ! idx))) cfg idx),
            nextRef := Suc (nextRef g)\<rparr>)"
  by (simp add: generateFruitBody_def Let_def)

lemma fromVertices_fields [simp]:
  "sizeIndex (fromVertices rep x y vs cfg idx) = Some idx"
  "popped (fromVertices rep x y vs cfg idx) = False"
  "position_x (fromVertices rep x y vs cfg idx) = x"
  "position_y (fromVertices rep x y vs cfg idx) = y"
  "circleRadius (fromVertices rep x y vs cfg idx) = rep vs"
  "isStatic (fromVertices rep x y vs cfg idx) = (case cfg_isStatic cfg of None \<Rightarrow> False | Some b \<Rightarrow> b)"
  by (simp_all add: fromVertices_def)

lemma popCircle_fields [simp]:
  "sizeIndex (popCircle x y r) = None"
  "popped (popCircle x y r) = False"
  "isStatic (popCircle x y r) = True"
  "circleRadius (popCircle x y r) = Some r"
  by (simp_all add: popCircle_def)

lemma generateFruitBody_fail:
  "\<not> idx < length (fruitSizes g) \<Longrightarrow> generateFruitBody g x y idx cfg = Inl (TypeError, g)"
  by (simp add: generateFruitBody_def)

lemma addPop_eq:
  "addPop g x y r =
      g\<lparr>rng := rng g + 1831565813, heap := (heap g)(nextRef g := popCircle x y r),
        nextRef := Suc (nextRef g), world := world g @ [nextRef g]\<rparr>"
  using mulberry32_snd [of "rng g"]
  by (simp add: addPop_def Composite_add_def Let_def split_beta)

lemma replaceFruits_ok:
  assumes "newSize < length (fruitSizes g)" and "length (fruitsMerged g) \<le> length (fruitSizes g)"
  shows "replaceFruits g a b newSize x y r =
     Inr (Continue (g\<lparr>score := scoreSum (fruitSizes g) (fruitsMerged g),
        fruitSizes := (fruitSizes g)[newSize := (fruitSizes g ! newSize)
                               \<lparr>radius := Some (physicsRadius (fruitSizes g ! newSize))\<rparr>],
        heap := (heap g)(nextRef g := fromVertices (engineRadius g) x y (fruitVertices (isMobile g) (fruitSizes g ! newSize)
                  (physicsRadius (fruitSizes g ! newSize))) noConfig newSize,
                         Suc (nextRef g) := popCircle x y r),
        nextRef := Suc (Suc (nextRef g)),
        world := remove1 b (remove1 a (world g)) @ [nextRef g, Suc (nextRef g)],
        rng := rng g + 1831565813\<rparr>))"
  using assms
  by (simp add: replaceFruits_def generateFruitBody_ok addPop_eq calculateScore_ok
       scoreSum_radius_update Composite_add_def Composite_remove_def Let_def)


lemma merge_turn:
  assumes st: "\<not> isStatic (heap g a)" "\<not> isStatic (heap g b)"
    and si: "sizeIndex (heap g a) = Some i" "sizeIndex (heap g b) = Some i"
    and pp: "\<not> popped (heap g a)" "\<not> popped (heap g b)"
    and hi: "loseHeight \<le> position_y (heap g a) + circleRadiusOr0 (heap g a)"
            "loseHeight \<le> position_y (heap g b) + circleRadiusOr0 (heap g b)"
    and ok: "session_ok g"
    and i: "i < length (fruitSizes g)"
    and n: "newSize = (if (case radius (fruitSizes g ! (length (fruitSizes g) - 1)) of
                             None \<Rightarrow> False
                           | Some m \<Rightarrow> m \<noteq> 0 \<and> m \<le> circleRadiusOr0 (heap g a))
                       then 0 else i + 1)"
  shows "collisionPair g (a, b) =
     replaceFruits
       (g\<lparr>fruitsMerged := (fruitsMerged g)[i := fruitsMerged g ! i + 1],
          heap := (heap g)(a := (heap g a)\<lparr>popped := True\<rparr>, b := (heap g b)\<lparr>popped := True\<rparr>)\<rparr>)
       a b newSize
       ((position_x (heap g a) + position_x (heap g b)) / 2)
       ((position_y (heap g a) + position_y (heap g b)) / 2)
       (circleRadiusOr0 (heap g a))"
proof -
  have ne: "fruitSizes g \<noteq> []" using i by auto
  have il: "i < length (fruitsMerged g)" "hasPopSound i"
    using i ok by (auto simp: session_ok_def hasPopSound_def)
  show ?thesis
    using st si pp hi ne il unfolding n
    by (simp add: collisionPair_def mergeFruits_def Let_def)
qed

lemma merge_result:
  assumes st: "\<not> isStatic (heap g a)" "\<not> isStatic (heap g b)"
    and si: "sizeIndex (heap g a) = Some i" "sizeIndex (heap g b) = Some i"
    and pp: "\<not> popped (heap g a)" "\<not> popped (heap g b)"
    and hi: "loseHeight \<le> position_y (heap g a) + circleRadiusOr0 (heap g a)"
            "loseHeight \<le> position_y (heap g b) + circleRadiusOr0 (heap g b)"
    and ok: "session_ok g"
    and i: "i < length (fruitSizes g)"
    and n: "newSize = (if (case radius (fruitSizes g ! (length (fruitSizes g) - 1)) of
                             None \<Rightarrow> False
                           | Some m \<Rightarrow> m \<noteq> 0 \<and> m \<le> circleRadiusOr0 (heap g a))
                       then 0 else i + 1)"
    and nl: "newSize < length (fruitSizes g)"
    and ex: "a < nextRef g" "b < nextRef g"
  shows "\<exists>g'. collisionPair g (a, b) = Inr (Continue g') \<and>
           world g' = remove1 b (remove1 a (world g)) @ [nextRef g, Suc (nextRef g)] \<and>
           nextRef g' = Suc (Suc (nextRef g)) \<and>
           sizeIndex (heap g' (nextRef g)) = Some newSize \<and>
           position_x (heap g' (nextRef g)) = (position_x (heap g a) + position_x (heap g b)) / 2 \<and>
           position_y (heap g' (nextRef g)) = (position_y (heap g a) + position_y (heap g b)) / 2 \<and>
           \<not> popped (heap g' (nextRef g)) \<and> \<not> isStatic (heap g' (nextRef g)) \<and>
           isStatic (heap g' (Suc (nextRef g))) \<and> sizeIndex (heap g' (Suc (nextRef g))) = None \<and>
           heap g' a = (heap g a)\<lparr>popped := True\<rparr> \<and>
           heap g' b = (heap g b)\<lparr>popped := True\<rparr> \<and>
           (\<forall>r. r \<noteq> a \<and> r \<noteq> b \<and> r < nextRef g \<longrightarrow> heap g' r = heap g r) \<and>
           fruitsMerged g' = (fruitsMerged g)[i := fruitsMerged g ! i + 1] \<and>
           score g' = scoreSum (fruitSizes g) ((fruitsMerged g)[i := fruitsMerged g ! i + 1]) \<and>
           stateIndex g' = stateIndex g \<and> session_ok g'"
proof -
  let ?g1 = "g\<lparr>fruitsMerged := (fruitsMerged g)[i := fruitsMerged g ! i + 1],
          heap := (heap g)(a := (heap g a)\<lparr>popped := True\<rparr>, b := (heap g b)\<lparr>popped := True\<rparr>)\<rparr>"
  have len: "length (fruitsMerged ?g1) \<le> length (fruitSizes ?g1)" "newSize < length (fruitSizes ?g1)"
    using ok nl by (simp_all add: session_ok_def)
  show ?thesis
    unfolding merge_turn [OF st si pp hi ok i n] replaceFruits_ok [OF len(2) len(1)]
    using ex ok by (auto simp add: noConfig_def session_ok_def)
qed


lemma collisionStart_single:
  "collisionPair g p = Inr (Continue g') \<Longrightarrow> collisionStart g [p] = Inr g'"
  by (simp add: collisionStart_def)

subsection \<open>The example sessions\<close>

lemma playing_fields [simp]:
  "heap (playing fs A B C) 3 = A" "heap (playing fs A B C) 4 = B" "heap (playing fs A B C) 5 = C"
  "nextRef (playing fs A B C) = 6" "world (playing fs A B C) = [0, 1, 2, 3, 4, 5]"
  "fruitSizes (playing fs A B C) = fs" "fruitsMerged (playing fs A B C) = replicate (length fs) 0"
  "stateIndex (playing fs A B C) = READY"
  by (simp_all add: playing_def)

lemma fruitAt_fields [simp]:
  "isStatic (fruitAt idx x y r) = False" "position_x (fruitAt idx x y r) = x"
  "position_y (fruitAt idx x y r) = y" "circleRadius (fruitAt idx x y r) = r"
  "sizeIndex (fruitAt idx x y r) = Some idx" "popped (fruitAt idx x y r) = False"
  by (simp_all add: fruitAt_def)

lemma length_defaultFruitSizes [simp]: "length defaultFruitSizes = 11"
  by (simp add: defaultFruitSizes_def)

lemma radius_defaultFruitSizes [simp]: "i < 11 \<Longrightarrow> radius (defaultFruitSizes ! i) = None"
proof -
  have "\<forall>f \<in> set defaultFruitSizes. radius f = None"
    by (simp add: defaultFruitSizes_def mkFruit_def)
  then show "i < 11 \<Longrightarrow> radius (defaultFruitSizes ! i) = None"
    using nth_mem [of i defaultFruitSizes] by simp
qed

lemma physicsRadius_radius_update [simp]:
  "physicsRadius (f\<lparr>radius := r\<rparr>) = physicsRadius f"
  by (cases "physicsScale f") (simp_all add: physicsRadius_def)

lemma generateFruitBody_caches_radius:
  assumes "generateFruitBody g x y idx cfg = Inr (ref, g')"
  shows "radius (fruitSizes g' ! idx) = Some (physicsRadius (fruitSizes g ! idx)) \<and>
         physicsRadius (fruitSizes g' ! idx) = physicsRadius (fruitSizes g ! idx)"
proof (cases "idx < length (fruitSizes g)")
  case True
  from assms show ?thesis
    unfolding generateFruitBody_ok [OF True] using True by auto
next
  case False
  from assms show ?thesis
    unfolding generateFruitBody_fail [OF False] by simp
qed

text \<open>
  When the guard does not fire for a pair of the last tier, the successor would be of a tier
  that the catalog does not have: the inputs are counted, popped and removed, and
  \<open>generateFruitBody\<close> throws.
\<close>

lemma top_tier_without_wrap:
  assumes st: "\<not> isStatic (heap g a)" "\<not> isStatic (heap g b)"
    and ne: "fruitSizes g \<noteq> []"
    and si: "sizeIndex (heap g a) = Some (length (fruitSizes g) - 1)"
            "sizeIndex (heap g b) = Some (length (fruitSizes g) - 1)"
    and pp: "\<not> popped (heap g a)" "\<not> popped (heap g b)"
    and hi: "loseHeight \<le> position_y (heap g a) + circleRadiusOr0 (heap g a)"
            "loseHeight \<le> position_y (heap g b) + circleRadiusOr0 (heap g b)"
    and guard: "\<not> (case radius (fruitSizes g ! (length (fruitSizes g) - 1)) of
                      None \<Rightarrow> False
                    | Some m \<Rightarrow> m \<noteq> 0 \<and> m \<le> circleRadiusOr0 (heap g a))"
    and ok: "session_ok g"
  shows "collisionPair g (a, b) =
     Inl (TypeError,
          g\<lparr>fruitsMerged := (fruitsMerged g)[length (fruitSizes g) - 1 :=
                                 fruitsMerged g ! (length (fruitSizes g) - 1) + 1],
            heap := (heap g)(a := (heap g a)\<lparr>popped := True\<rparr>, b := (heap g b)\<lparr>popped := True\<rparr>),
            world := remove1 b (remove1 a (world g))\<rparr>)"
proof -
  have i': "length (fruitSizes g) - 1 < length (fruitSizes g)"
    using ne by simp
  have n: "length (fruitSizes g) - 1 + 1 =
      (if (case radius (fruitSizes g ! (length (fruitSizes g) - 1)) of
             None \<Rightarrow> False
           | Some m \<Rightarrow> m \<noteq> 0 \<and> m \<le> circleRadiusOr0 (heap g a))
       then 0 else length (fruitSizes g) - 1 + 1)"
    using guard by simp
  show ?thesis
    unfolding merge_turn [OF st si pp hi ok i' n]
    using ne by (simp add: replaceFruits_def generateFruitBody_fail Composite_remove_def)
qed

subsection \<open>The lose branch and the loop\<close>

lemma loseGame_effect:
  "stateIndex (after (loseGame g)) = LOSE \<and> heap (after (loseGame g)) = heap g \<and>
   fruitsMerged (after (loseGame g)) = fruitsMerged g \<and> nextRef (after (loseGame g)) = nextRef g \<and>
   world (after (loseGame g)) = world g \<and> fruitSizes (after (loseGame g)) = fruitSizes g \<and>
   currentFruitSize (after (loseGame g)) = currentFruitSize g \<and>
   nextFruitSize (after (loseGame g)) = nextFruitSize g"
  using calculateScore_cases [of "g\<lparr>stateIndex := LOSE\<rparr>"]
  by (auto simp add: loseGame_def originalLoseGame_def saveHighscore_def)

lemma lose_turn:
  assumes "\<not> isStatic (heap g a)" and "\<not> isStatic (heap g b)"
    and "position_y (heap g a) + circleRadiusOr0 (heap g a) < loseHeight \<or>
         position_y (heap g b) + circleRadiusOr0 (heap g b) < loseHeight"
  shows "collisionPair g (a, b) = (case loseGame g of Inl e \<Rightarrow> Inl e | Inr g' \<Rightarrow> Inr (Return g'))"
  using assms by (auto simp add: collisionPair_def Let_def)

lemma collisionLoop_append:
  "collisionLoop g pre = Inr (Continue g1) \<Longrightarrow> collisionLoop g (pre @ ps) = collisionLoop g1 ps"
proof (induction pre arbitrary: g)
  case Nil
  then show ?case by simp
next
  case (Cons p pre)
  show ?case
  proof (cases "collisionPair g p")
    case (Inl e)
    with Cons.prems show ?thesis by simp
  next
    case (Inr c)
    with Cons show ?thesis by (cases c) simp_all
  qed
qed

lemma collisionStart_two:
  "collisionPair g p = Inr (Continue g1) \<Longrightarrow> collisionPair g1 q = Inr (Continue g2) \<Longrightarrow>
   collisionStart g [p, q] = Inr g2"
  by (simp add: collisionStart_def)

subsection \<open>Catalog lookups\<close>

lemma threeTiers_scores [simp]: "length threeTiers = 3" "map scoreValue threeTiers = [2, 5, 9]"
  by (simp_all add: threeTiers_def mkFruit_def)

lemma threeTiers_radius [simp]: "radius (threeTiers ! 2) = None"
  by (simp add: threeTiers_def mkFruit_def)

lemma scoreSum_scenario [simp]: "scoreSum threeTiers [1, 0, 0] = 2"
  by (simp add: scoreSum_def threeTiers_def mkFruit_def numeral_3_eq_3)

lemma findIndex_map: "findIndex P (map f xs) = findIndex (\<lambda>x. P (f x)) xs"
  by (induction xs) simp_all

lemma findIndex_cong: "(\<And>x. x \<in> set xs \<Longrightarrow> P x = Q x) \<Longrightarrow> findIndex P xs = findIndex Q xs"
  by (induction xs) simp_all

lemma lookupFruitIndex_cache:
  assumes "map (\<lambda>f. f\<lparr>radius := None\<rparr>) (fruitSizes g) = fs"
  shows "lookupFruitIndex g r =
     (case findIndex (\<lambda>sz. \<bar>physicsRadius sz - r\<bar> < tolerance) fs of
        None \<Rightarrow> None
      | Some i \<Rightarrow> if int i = int (length fs) - 1 then None else Some i)"
proof -
  have len: "length (fruitSizes g) = length fs"
    using assms by auto
  have fi: "findIndex (\<lambda>sz. \<bar>physicsRadius sz - r\<bar> < tolerance) (fruitSizes g) =
      findIndex (\<lambda>sz. \<bar>physicsRadius sz - r\<bar> < tolerance) fs"
    unfolding assms [symmetric] findIndex_map by simp
  show ?thesis
    by (simp only: lookupFruitIndex_def fi len)
qed

lemma default_findIndex_all:
  "\<forall>i<11. findIndex (\<lambda>sz. \<bar>physicsRadius sz - physicsRadius (defaultFruitSizes ! i)\<bar> < tolerance)
     defaultFruitSizes = Some i"
  by (simp add: eval_nat_numeral All_less_Suc defaultFruitSizes_def mkFruit_def
      physicsRadius_def tolerance_def)

lemma default_findIndex:
  "i < 11 \<Longrightarrow>
   findIndex (\<lambda>sz. \<bar>physicsRadius sz - physicsRadius (defaultFruitSizes ! i)\<bar> < tolerance)
     defaultFruitSizes = Some i"
  using default_findIndex_all by blast

lemma default_no_cache: "map (\<lambda>f. f\<lparr>radius := None\<rparr>) defaultFruitSizes = defaultFruitSizes"
  by (simp add: defaultFruitSizes_def mkFruit_def)

subsection \<open>Saving the highscore\<close>

lemma calculateScore_Inl: "calculateScore g = Inl e \<Longrightarrow> snd e = g"
  by (auto simp add: calculateScore_def split: sum.splits)

lemma calculateScore_Inr:
  "calculateScore g = Inr g1 \<Longrightarrow> g1 = g\<lparr>score := score g1\<rparr>"
  by (auto simp add: calculateScore_def split: sum.splits)

lemma saveHighscore_result:
  "calculateScore g = Inl e \<Longrightarrow> saveHighscore g = Inl e"
  "calculateScore g = Inr g1 \<Longrightarrow> score g1 < cache_highscore g1 \<Longrightarrow> saveHighscore g = Inr g1"
  "calculateScore g = Inr g1 \<Longrightarrow> \<not> score g1 < cache_highscore g1 \<Longrightarrow>
     saveHighscore g =
       Inr (g1\<lparr>cache_highscore := score g1,
               endTitle := (case endTitle g1 of None \<Rightarrow> None | Some t \<Rightarrow> Some ''New Highscore!''),
               storage := Some (score g1)\<rparr>)"
  by (simp_all add: saveHighscore_def)

lemma saveHighscore_step:
  "cache_highscore g \<le> cache_highscore (after (saveHighscore g)) \<and>
   (stored_ok g \<longrightarrow> stored_ok (after (saveHighscore g)) \<and>
      (\<forall>h. storage g = Some h \<longrightarrow> (\<exists>h'. storage (after (saveHighscore g)) = Some h' \<and> h \<le> h')))"
proof (cases "calculateScore g")
  case (Inl e)
  then show ?thesis
    using calculateScore_Inl [OF Inl] by (simp add: saveHighscore_result(1))
next
  case (Inr g1)
  have f: "cache_highscore g1 = cache_highscore g" "storage g1 = storage g"
    by (subst calculateScore_Inr [OF Inr], simp)+
  show ?thesis
  proof (cases "score g1 < cache_highscore g1")
    case True
    then show ?thesis
      using f by (simp add: saveHighscore_result(2) [OF Inr] stored_ok_def)
  next
    case False
    then show ?thesis
      using f by (auto simp add: saveHighscore_result(3) [OF Inr] stored_ok_def)
  qed
qed

lemma saveHighscore_calls_monotone:
  "cache_highscore g \<le> cache_highscore (saveHighscore_calls g css) \<and>
   (stored_ok g \<longrightarrow> stored_ok (saveHighscore_calls g css) \<and>
      (\<forall>h. storage g = Some h \<longrightarrow> (\<exists>h'. storage (saveHighscore_calls g css) = Some h' \<and> h \<le> h')))"
proof (induction css arbitrary: g)
  case Nil
  then show ?case by simp
next
  case (Cons counts rest)
  let ?g0 = "g\<lparr>fruitsMerged := counts\<rparr>"
  let ?g1 = "after (saveHighscore ?g0)"
  have c0: "cache_highscore ?g0 = cache_highscore g" "storage ?g0 = storage g"
    "stored_ok ?g0 = stored_ok g"
    by (simp_all add: stored_ok_def)
  note step = saveHighscore_step [of ?g0, unfolded c0]
  note ih = Cons.IH [of ?g1]
  have "cache_highscore g \<le> cache_highscore (saveHighscore_calls ?g1 rest)"
    using step ih by linarith
  moreover have "stored_ok (saveHighscore_calls ?g1 rest)" if "stored_ok g"
    using that step ih by blast
  moreover have "\<exists>h'. storage (saveHighscore_calls ?g1 rest) = Some h' \<and> h \<le> h'"
    if so: "stored_ok g" and sg: "storage g = Some h" for h
  proof -
    obtain h1 where h1: "storage ?g1 = Some h1" "h \<le> h1" "stored_ok ?g1"
      using so sg step by blast
    then obtain h' where "storage (saveHighscore_calls ?g1 rest) = Some h'" "h1 \<le> h'"
      using ih by blast
    with h1 show ?thesis by auto
  qed
  ultimately show ?case by simp
qed

lemma stored_ok_scenario: "stored_ok scenario"
  by (simp add: stored_ok_def scenario_def playing_def Game_object_def)

lemma calculateScore_low: "calculateScore (scenario\<lparr>cache_highscore := 10, fruitsMerged := [1, 0, 0]\<rparr>) =
     Inr (scenario\<lparr>cache_highscore := 10, fruitsMerged := [1, 0, 0], score := 2\<rparr>)"
  by (simp add: calculateScore_ok scenario_def)

lemma scoreSum_seven: "scoreSum threeTiers [7, 0, 0] = 14"
  by (simp add: scoreSum_def threeTiers_def mkFruit_def numeral_3_eq_3)

lemma calculateScore_high: "calculateScore (scenario\<lparr>cache_highscore := 10, fruitsMerged := [7, 0, 0]\<rparr>) =
     Inr (scenario\<lparr>cache_highscore := 10, fruitsMerged := [7, 0, 0], score := 14\<rparr>)"
  by (simp add: calculateScore_ok scenario_def scoreSum_seven)

lemma reduce_score_too_long: "reduce_score threeTiers 0 0 [1, 0, 0, 0] = Inl TypeError"
  by (simp add: numeral_3_eq_3)

lemma calculateScore_too_long: "calculateScore (scenario\<lparr>fruitsMerged := [1, 0, 0, 0]\<rparr>) =
     Inl (TypeError, scenario\<lparr>fruitsMerged := [1, 0, 0, 0]\<rparr>)"
  by (simp add: calculateScore_def scenario_def reduce_score_too_long)



subsection \<open>What one turn of the loop changes\<close>

lemma after_calculateScore [simp]:
  "heap (after (calculateScore g)) = heap g"
  "nextRef (after (calculateScore g)) = nextRef g"
  "world (after (calculateScore g)) = world g"
  "fruitsMerged (after (calculateScore g)) = fruitsMerged g"
  "fruitSizes (after (calculateScore g)) = fruitSizes g"
  "currentFruitSize (after (calculateScore g)) = currentFruitSize g"
  "nextFruitSize (after (calculateScore g)) = nextFruitSize g"
  "stateIndex (after (calculateScore g)) = stateIndex g"
  "previewBall (after (calculateScore g)) = previewBall g"
  using calculateScore_cases [of g] by auto

lemma outcome_of_score [simp]:
  "outcome_state (case r of Inl e \<Rightarrow> Inl e | Inr g \<Rightarrow> Inr (Continue g)) = after r"
  by (cases r) simp_all

lemma outcome_of_lose [simp]:
  "outcome_state (case r of Inl e \<Rightarrow> Inl e | Inr g \<Rightarrow> Inr (Return g)) = after r"
  by (cases r) simp_all

lemma replaceFruits_frame:
  "keeps_tiers g (outcome_state (replaceFruits g a b n x y r)) \<and>
   fruitsMerged (outcome_state (replaceFruits g a b n x y r)) = fruitsMerged g \<and>
   nextRef g \<le> nextRef (outcome_state (replaceFruits g a b n x y r)) \<and>
   (\<forall>\<rho><nextRef g. heap (outcome_state (replaceFruits g a b n x y r)) \<rho> = heap g \<rho>)"
proof (cases "n < length (fruitSizes g)")
  case True
  then show ?thesis
    by (simp add: replaceFruits_def generateFruitBody_ok addPop_eq Composite_add_def
        Composite_remove_def Let_def keeps_tiers_def)
next
  case False
  then show ?thesis
    by (simp add: replaceFruits_def generateFruitBody_fail Composite_remove_def Let_def
        keeps_tiers_def)
qed

lemma list_update_changes: "i < length xs \<Longrightarrow> v \<noteq> xs ! i \<Longrightarrow> xs[i := v] \<noteq> xs"
  by (metis nth_list_update_eq)

lemma mergeFruits_frame:
  "keeps_tiers g (outcome_state (mergeFruits g a b i)) \<and>
   nextRef g \<le> nextRef (outcome_state (mergeFruits g a b i)) \<and>
   (fruitsMerged (outcome_state (mergeFruits g a b i)) = fruitsMerged g \<longrightarrow>
      (\<forall>\<rho><nextRef g. heap (outcome_state (mergeFruits g a b i)) \<rho> = heap g \<rho>)) \<and>
   (fruitsMerged (outcome_state (mergeFruits g a b i)) \<noteq> fruitsMerged g \<longrightarrow>
      (\<forall>\<rho><nextRef g. heap (outcome_state (mergeFruits g a b i)) \<rho> =
          (if \<rho> = a \<or> \<rho> = b then (heap g \<rho>)\<lparr>popped := True\<rparr> else heap g \<rho>)))"
proof -
  define g3 where "g3 = g\<lparr>fruitsMerged := (fruitsMerged g)[i := fruitsMerged g ! i + 1],
      heap := (heap g)(a := (heap g a)\<lparr>popped := True\<rparr>, b := (heap g b)\<lparr>popped := True\<rparr>)\<rparr>"
  have cases: "outcome_state (mergeFruits g a b i) = g \<or>
      (i < length (fruitsMerged g) \<and>
        (outcome_state (mergeFruits g a b i) = g3 \<or>
         (\<exists>n x y r. outcome_state (mergeFruits g a b i) = outcome_state (replaceFruits g3 a b n x y r))))"
    by (auto simp add: mergeFruits_def Let_def g3_def)
  have g3: "i < length (fruitsMerged g) \<Longrightarrow> fruitsMerged g3 \<noteq> fruitsMerged g"
    "keeps_tiers g g3" "nextRef g3 = nextRef g"
    "\<forall>\<rho>. heap g3 \<rho> = (if \<rho> = a \<or> \<rho> = b then (heap g \<rho>)\<lparr>popped := True\<rparr> else heap g \<rho>)"
    by (auto simp add: g3_def keeps_tiers_def list_update_changes)
  from cases show ?thesis
  proof (elim disjE conjE exE)
    assume "outcome_state (mergeFruits g a b i) = g"
    then show ?thesis by (simp add: keeps_tiers_def)
  next
    assume "i < length (fruitsMerged g)" "outcome_state (mergeFruits g a b i) = g3"
    then show ?thesis using g3 by simp
  next
    fix n x y r
    assume i: "i < length (fruitsMerged g)"
      and o: "outcome_state (mergeFruits g a b i) = outcome_state (replaceFruits g3 a b n x y r)"
    show ?thesis
      unfolding o using replaceFruits_frame [of g3 a b n x y r] g3(1) [OF i] g3(2-4)
      by (simp add: keeps_tiers_def)
  qed
qed

lemma collisionPair_cases:
  "outcome_state (collisionPair g p) = g \<or>
   outcome_state (collisionPair g p) = after (loseGame g) \<or>
   (\<not> popped (heap g (fst p)) \<and> \<not> popped (heap g (snd p)) \<and>
    (\<exists>i. outcome_state (collisionPair g p) = outcome_state (mergeFruits g (fst p) (snd p) i)))"
  by (auto simp add: collisionPair_def Let_def split: option.splits)


lemma collisionPair_turn:
  "keeps_tiers g (outcome_state (collisionPair g p)) \<and>
   nextRef g \<le> nextRef (outcome_state (collisionPair g p)) \<and>
   (fruitsMerged (outcome_state (collisionPair g p)) = fruitsMerged g \<longrightarrow>
      (\<forall>\<rho><nextRef g. heap (outcome_state (collisionPair g p)) \<rho> = heap g \<rho>)) \<and>
   (fruitsMerged (outcome_state (collisionPair g p)) \<noteq> fruitsMerged g \<longrightarrow>
      \<not> popped (heap g (fst p)) \<and> \<not> popped (heap g (snd p)) \<and>
      (\<forall>\<rho><nextRef g. heap (outcome_state (collisionPair g p)) \<rho> =
          (if \<rho> = fst p \<or> \<rho> = snd p then (heap g \<rho>)\<lparr>popped := True\<rparr> else heap g \<rho>)))"
  using collisionPair_cases [of g p]
proof (elim disjE conjE exE)
  assume "outcome_state (collisionPair g p) = g"
  then show ?thesis by (simp add: keeps_tiers_def)
next
  assume "outcome_state (collisionPair g p) = after (loseGame g)"
  then show ?thesis using loseGame_effect [of g] by (simp add: keeps_tiers_def)
next
  fix i
  assume "\<not> popped (heap g (fst p))" "\<not> popped (heap g (snd p))"
    and "outcome_state (collisionPair g p) = outcome_state (mergeFruits g (fst p) (snd p) i)"
  then show ?thesis using mergeFruits_frame [of g "fst p" "snd p" i] by simp
qed

lemma mergeInputs_refs: "set (mergeInputs g ps) \<subseteq> fst ` set ps \<union> snd ` set ps"
proof (induction ps arbitrary: g)
  case Nil
  then show ?case by simp
next
  case (Cons p ps)
  show ?case
  proof (cases "collisionPair g p")
    case (Inl e)
    then show ?thesis by auto
  next
    case (Inr c)
    then show ?thesis using Cons.IH by (cases c) auto
  qed
qed

lemma collisionLoop_merges:
  assumes "\<forall>p\<in>set ps. fst p < nextRef g \<and> snd p < nextRef g \<and> fst p \<noteq> snd p"
  shows "distinct (mergeInputs g ps) \<and>
     (\<forall>\<rho>\<in>set (mergeInputs g ps). \<not> popped (heap g \<rho>)) \<and>
     nextRef g \<le> nextRef (outcome_state (collisionLoop g ps)) \<and>
     (\<forall>\<rho><nextRef g. popped (heap (outcome_state (collisionLoop g ps)) \<rho>) =
                      (popped (heap g \<rho>) \<or> \<rho> \<in> set (mergeInputs g ps)))"
  using assms
proof (induction ps arbitrary: g)
  case Nil
  then show ?case by simp
next
  case (Cons p ps)
  let ?s = "outcome_state (collisionPair g p)"
  let ?M = "if fruitsMerged ?s \<noteq> fruitsMerged g then [fst p, snd p] else []"
  have p: "fst p < nextRef g" "snd p < nextRef g" "fst p \<noteq> snd p"
    and rest: "\<forall>q\<in>set ps. fst q < nextRef g \<and> snd q < nextRef g \<and> fst q \<noteq> snd q"
    using Cons.prems by simp_all
  note turn = collisionPair_turn [of g p]
  have t1: "nextRef g \<le> nextRef ?s" using turn by simp
  have t2: "popped (heap ?s \<rho>) = (popped (heap g \<rho>) \<or> \<rho> \<in> set ?M)" if "\<rho> < nextRef g" for \<rho>
    using turn that by (cases "fruitsMerged ?s = fruitsMerged g") auto
  have t3: "\<forall>\<rho>\<in>set ?M. \<not> popped (heap g \<rho>)" using turn by auto
  have t4: "distinct ?M" using p by simp
  have t5: "\<forall>\<rho>\<in>set ?M. \<rho> < nextRef g" using p by auto
  show ?case
  proof (cases "\<exists>g'. collisionPair g p = Inr (Continue g')")
    case True
    then obtain g' where c: "collisionPair g p = Inr (Continue g')" by blast
    then have s: "?s = g'" by simp
    have loop: "collisionLoop g (p # ps) = collisionLoop g' ps"
      and mi: "mergeInputs g (p # ps) = ?M @ mergeInputs g' ps"
      using c by simp_all
    have valid': "\<forall>q\<in>set ps. fst q < nextRef g' \<and> snd q < nextRef g' \<and> fst q \<noteq> snd q"
      using rest t1 unfolding s by auto
    note ih = Cons.IH [OF valid']
    have old: "\<rho> < nextRef g" if "\<rho> \<in> set (mergeInputs g' ps)" for \<rho>
      using that mergeInputs_refs [of g' ps] rest by auto
    have unp: "\<not> popped (heap g' \<rho>)" if "\<rho> \<in> set (mergeInputs g' ps)" for \<rho>
      using that ih by blast
    have disj: "set ?M \<inter> set (mergeInputs g' ps) = {}"
    proof (rule ccontr)
      assume "set ?M \<inter> set (mergeInputs g' ps) \<noteq> {}"
      then obtain \<rho> where r: "\<rho> \<in> set ?M" "\<rho> \<in> set (mergeInputs g' ps)" by blast
      then have "popped (heap g' \<rho>)" using t2 [of \<rho>] t5 unfolding s by blast
      then show False using unp [OF r(2)] by simp
    qed
    have a: "distinct (mergeInputs g (p # ps))"
      unfolding mi using t4 ih disj by simp
    have b: "\<forall>\<rho>\<in>set (mergeInputs g (p # ps)). \<not> popped (heap g \<rho>)"
    proof
      fix \<rho> assume "\<rho> \<in> set (mergeInputs g (p # ps))"
      then consider "\<rho> \<in> set ?M" | "\<rho> \<in> set (mergeInputs g' ps)"
        unfolding mi by auto
      then show "\<not> popped (heap g \<rho>)"
      proof cases
        case 1
        then show ?thesis using t3 by blast
      next
        case 2
        then show ?thesis using unp [OF 2] t2 [OF old [OF 2]] unfolding s by blast
      qed
    qed
    have c': "nextRef g \<le> nextRef (outcome_state (collisionLoop g (p # ps)))"
      unfolding loop using ih t1 unfolding s by linarith
    have d: "popped (heap (outcome_state (collisionLoop g (p # ps))) \<rho>) =
               (popped (heap g \<rho>) \<or> \<rho> \<in> set (mergeInputs g (p # ps)))" if "\<rho> < nextRef g" for \<rho>
    proof -
      have "\<rho> < nextRef g'" using that t1 unfolding s by linarith
      then have "popped (heap (outcome_state (collisionLoop g' ps)) \<rho>) =
               (popped (heap g' \<rho>) \<or> \<rho> \<in> set (mergeInputs g' ps))"
        using ih by blast
      then show ?thesis
        unfolding loop mi using t2 [OF that] unfolding s by auto
    qed
    show ?thesis using a b c' d by blast
  next
    case False
    have loop: "collisionLoop g (p # ps) = collisionPair g p"
      and mi: "mergeInputs g (p # ps) = ?M"
      using False by (auto split: sum.splits control.splits)
    show ?thesis
      unfolding loop mi using t1 t2 t3 t4 by blast
  qed
qed


lemma after_collisionStart: "after (collisionStart g ps) = outcome_state (collisionLoop g ps)"
  by (cases "collisionLoop g ps") (simp_all add: collisionStart_def)

lemma triple_contact:
  assumes d: "a \<noteq> b" "a \<noteq> c" "b \<noteq> c"
    and ex: "a < nextRef g" "b < nextRef g" "c < nextRef g"
    and st: "\<not> isStatic (heap g a)" "\<not> isStatic (heap g b)" "\<not> isStatic (heap g c)"
    and si: "sizeIndex (heap g a) = Some i" "sizeIndex (heap g b) = Some i"
            "sizeIndex (heap g c) = Some i"
    and i: "i < length (fruitSizes g) - 1"
    and pp: "\<not> popped (heap g a)" "\<not> popped (heap g b)" "\<not> popped (heap g c)"
    and hi: "loseHeight \<le> position_y (heap g a) + circleRadiusOr0 (heap g a)"
            "loseHeight \<le> position_y (heap g b) + circleRadiusOr0 (heap g b)"
            "loseHeight \<le> position_y (heap g c) + circleRadiusOr0 (heap g c)"
    and ok: "session_ok g"
    and q: "q \<in> {(b, c), (c, b), (a, c), (c, a)}"
  shows "\<exists>g'. collisionStart g [(a, b), q] = Inr g' \<and>
           collisionStart g [(a, b)] = Inr g' \<and>
           mergeInputs g [(a, b), q] = [a, b] \<and>
           world g' = remove1 b (remove1 a (world g)) @ [nextRef g, Suc (nextRef g)] \<and>
           sizeIndex (heap g' (nextRef g)) \<noteq> None \<and>
           sizeIndex (heap g' (Suc (nextRef g))) = None \<and>
           popped (heap g' a) \<and> popped (heap g' b) \<and>
           heap g' c = heap g c \<and>
           fruitsMerged g' = (fruitsMerged g)[i := fruitsMerged g ! i + 1]"
proof -
  define n where "n = (if (case radius (fruitSizes g ! (length (fruitSizes g) - 1)) of
                             None \<Rightarrow> False
                           | Some m \<Rightarrow> m \<noteq> 0 \<and> m \<le> circleRadiusOr0 (heap g a))
                       then 0 else i + 1)"
  have i': "i < length (fruitSizes g)" and nl: "n < length (fruitSizes g)"
    using i by (auto simp add: n_def)
  have im: "i < length (fruitsMerged g)" using i' ok by (simp add: session_ok_def)
  obtain g' where g': "collisionPair g (a, b) = Inr (Continue g')"
      "world g' = remove1 b (remove1 a (world g)) @ [nextRef g, Suc (nextRef g)]"
      "sizeIndex (heap g' (nextRef g)) = Some n"
      "sizeIndex (heap g' (Suc (nextRef g))) = None"
      "heap g' a = (heap g a)\<lparr>popped := True\<rparr>" "heap g' b = (heap g b)\<lparr>popped := True\<rparr>"
      "\<forall>r. r \<noteq> a \<and> r \<noteq> b \<and> r < nextRef g \<longrightarrow> heap g' r = heap g r"
      "fruitsMerged g' = (fruitsMerged g)[i := fruitsMerged g ! i + 1]"
    using merge_result [OF st(1,2) si(1,2) pp(1,2) hi(1,2) ok i' n_def nl ex(1,2)] by blast
  have c: "heap g' c = heap g c" using g'(7) d ex by simp
  have second: "collisionPair g' q = Inr (Continue g')"
    using q g'(5,6) c st si pp hi by (auto simp add: collisionPair_def Let_def circleRadiusOr0_def)
  have changed: "fruitsMerged g' \<noteq> fruitsMerged g"
    unfolding g'(8) using im by (simp add: list_update_changes)
  have "collisionStart g [(a, b), q] = Inr g'"
    using g'(1) second by (rule collisionStart_two)
  moreover have "collisionStart g [(a, b)] = Inr g'"
    using g'(1) by (rule collisionStart_single)
  moreover have "mergeInputs g [(a, b), q] = [a, b]"
    using g'(1) second changed by simp
  ultimately show ?thesis
    using g'(2-6,8) c by (intro exI [of _ g']) simp
qed

subsection \<open>The queued tiers along a run\<close>

lemma after_setNextFruitSize [simp]:
  "heap (after (setNextFruitSize g)) = heap g"
  "nextRef (after (setNextFruitSize g)) = nextRef g"
  "world (after (setNextFruitSize g)) = world g"
  "fruitsMerged (after (setNextFruitSize g)) = fruitsMerged g"
  "fruitSizes (after (setNextFruitSize g)) = fruitSizes g"
  "currentFruitSize (after (setNextFruitSize g)) = currentFruitSize g"
  "stateIndex (after (setNextFruitSize g)) = stateIndex g"
  "previewBall (after (setNextFruitSize g)) = previewBall g"
  by (auto simp add: setNextFruitSize_def Let_def split_beta split: option.splits)

lemma setNextFruitSize_ok:
  assumes "5 \<le> length (fruitSizes g)"
  shows "setNextFruitSize g = Inr (after (setNextFruitSize g))"
proof -
  have "nat \<lfloor>fst (mulberry32 (rng g)) * 5\<rfloor> < 5"
    using mulberry32_range [of "rng g"] floor_times_five by blast
  then have "nat \<lfloor>fst (mulberry32 (rng g)) * 5\<rfloor> < length (fruitSizes g)"
    using assms by linarith
  then show ?thesis
    by (simp add: setNextFruitSize_def Let_def split_beta split: option.splits)
qed

lemma calculateScore_returns:
  "length (fruitsMerged g) \<le> length (fruitSizes g) \<Longrightarrow>
   calculateScore g = Inr (after (calculateScore g))"
  by (simp add: calculateScore_ok)

lemma generateFruitBody_made:
  assumes "idx < length (fruitSizes g)"
  shows "\<exists>g'. generateFruitBody g x y idx cfg = Inr (nextRef g, g') \<and>
           heap g' = (heap g)(nextRef g := fromVertices (engineRadius g) x y
              (fruitVertices (isMobile g) (fruitSizes g ! idx) (physicsRadius (fruitSizes g ! idx)))
              cfg idx) \<and>
           nextRef g' = Suc (nextRef g) \<and> world g' = world g \<and>
           previewBall g' = previewBall g \<and> stateIndex g' = stateIndex g \<and>
           fruitsMerged g' = fruitsMerged g \<and> keeps_tiers g g'"
  by (simp add: generateFruitBody_ok [OF assms] keeps_tiers_def)

lemma tier_inv_keeps: "tier_inv g \<Longrightarrow> keeps_tiers g s \<Longrightarrow> tier_inv s"
  by (simp add: tier_inv_def keeps_tiers_def)


lemma addFruit_spawns:
  assumes inv: "tier_inv g" and rd: "stateIndex g = READY"
  shows "\<exists>s. addFruit g x mouseX = Inr s \<and> tier_inv s \<and>
           sizeIndex (heap s (nextRef g)) = Some (currentFruitSize g) \<and>
           \<not> isStatic (heap s (nextRef g)) \<and>
           currentFruitSize s = nextFruitSize g"
proof -
  let ?g1 = "g\<lparr>stateIndex := DROP\<rparr>"
  have c1: "currentFruitSize ?g1 < length (fruitSizes ?g1)"
    using inv by (simp add: tier_inv_def)
  obtain g2 where g2:
      "generateFruitBody ?g1 x previewBallHeight (currentFruitSize ?g1) noConfig = Inr (nextRef ?g1, g2)"
    and h2: "heap g2 = (heap ?g1)(nextRef ?g1 := fromVertices (engineRadius ?g1) x previewBallHeight
              (fruitVertices (isMobile ?g1) (fruitSizes ?g1 ! currentFruitSize ?g1)
                 (physicsRadius (fruitSizes ?g1 ! currentFruitSize ?g1)))
              noConfig (currentFruitSize ?g1))"
    and n2: "nextRef g2 = Suc (nextRef ?g1)" and k2: "keeps_tiers ?g1 g2"
    using generateFruitBody_made [OF c1] by blast
  define g4 where "g4 = (Composite_add g2 [nextRef g])
                           \<lparr>currentFruitSize := nextFruitSize (Composite_add g2 [nextRef g])\<rparr>"
  have f4: "heap g4 = heap g2" "nextRef g4 = nextRef g2" "currentFruitSize g4 = nextFruitSize g"
    "length (fruitSizes g4) = 11" "length (fruitsMerged g4) \<le> 11"
    using k2 inv by (simp_all add: g4_def Composite_add_def keeps_tiers_def tier_inv_def)
  define g5 where "g5 = after (setNextFruitSize g4)"
  have s5: "setNextFruitSize g4 = Inr g5"
    unfolding g5_def by (rule setNextFruitSize_ok) (simp add: f4)
  have f5: "heap g5 = heap g2" "nextRef g5 = nextRef g2" "currentFruitSize g5 = nextFruitSize g"
    "length (fruitSizes g5) = 11" "length (fruitsMerged g5) \<le> 11" "nextFruitSize g5 < 5"
    using f4 setNextFruitSize_below_five [of g4] by (simp_all add: g5_def)
  define g6 where "g6 = after (calculateScore g5)"
  have s6: "calculateScore g5 = Inr g6"
    unfolding g6_def by (rule calculateScore_returns) (simp add: f5)
  have f6: "heap g6 = heap g2" "nextRef g6 = nextRef g2" "currentFruitSize g6 = nextFruitSize g"
    "length (fruitSizes g6) = 11" "length (fruitsMerged g6) \<le> 11" "nextFruitSize g6 < 5"
    using f5 by (simp_all add: g6_def)
  define g7 where "g7 = (case previewBall g6 of None \<Rightarrow> g6 | Some pb \<Rightarrow> Composite_remove g6 [pb])"
  have f7: "heap g7 = heap g2" "nextRef g7 = nextRef g2" "currentFruitSize g7 = nextFruitSize g"
    "length (fruitSizes g7) = 11" "length (fruitsMerged g7) \<le> 11" "nextFruitSize g7 < 5"
    using f6 by (simp_all add: g7_def Composite_remove_def split: option.splits)
  have c7: "currentFruitSize g7 < length (fruitSizes g7)"
    using f7 inv by (simp add: tier_inv_def)
  obtain g8 where g8:
      "generateFruitBody g7 mouseX previewBallHeight (currentFruitSize g7)
          \<lparr>cfg_isStatic = Some True, cfg_collisionMask = Some 64\<rparr> = Inr (nextRef g7, g8)"
    and h8: "heap g8 = (heap g7)(nextRef g7 := fromVertices (engineRadius g7) mouseX previewBallHeight
              (fruitVertices (isMobile g7) (fruitSizes g7 ! currentFruitSize g7)
                 (physicsRadius (fruitSizes g7 ! currentFruitSize g7)))
              \<lparr>cfg_isStatic = Some True, cfg_collisionMask = Some 64\<rparr> (currentFruitSize g7))"
    and k8: "keeps_tiers g7 g8"
    using generateFruitBody_made [OF c7] by blast
  have res: "addFruit g x mouseX = Inr (g8\<lparr>previewBall := Some (nextRef g7)\<rparr>)"
    using rd g2 s5 s6 g8
    by (simp add: addFruit_def Let_def g4_def [symmetric] g7_def [symmetric])
  have "tier_inv (g8\<lparr>previewBall := Some (nextRef g7)\<rparr>)"
    using k8 f7 inv by (simp add: tier_inv_def keeps_tiers_def)
  moreover have "heap (g8\<lparr>previewBall := Some (nextRef g7)\<rparr>) (nextRef g) =
      fromVertices (engineRadius ?g1) x previewBallHeight
              (fruitVertices (isMobile ?g1) (fruitSizes ?g1 ! currentFruitSize ?g1)
                 (physicsRadius (fruitSizes ?g1 ! currentFruitSize ?g1)))
              noConfig (currentFruitSize ?g1)"
    by (simp add: h8 f7 n2 h2)
  moreover have "currentFruitSize (g8\<lparr>previewBall := Some (nextRef g7)\<rparr>) = nextFruitSize g"
    using k8 f7 by (simp add: keeps_tiers_def)
  ultimately show ?thesis
    using res by (simp add: noConfig_def)
qed


lemma tier_inv_addFruit: "tier_inv g \<Longrightarrow> tier_inv (after (addFruit g x mouseX))"
proof (cases "stateIndex g = READY")
  case True
  assume "tier_inv g"
  from addFruit_spawns [OF this True, of x mouseX] show ?thesis by auto
next
  case False
  assume "tier_inv g"
  with False show ?thesis by (simp add: addFruit_def)
qed

lemma tier_inv_restartGame:
  assumes inv: "tier_inv g"
  shows "tier_inv (after (restartGame g))"
proof -
  define g2 where "g2 = (Composite_remove g (filter (\<lambda>ref. \<not> isStatic (heap g ref)) (world g)))
     \<lparr>score := 0,
      fruitsMerged := replicate (length (fruitSizes
         (Composite_remove g (filter (\<lambda>ref. \<not> isStatic (heap g ref)) (world g))))) 0\<rparr>"
  have f2: "length (fruitSizes g2) = 11" "length (fruitsMerged g2) = 11"
    using inv by (simp_all add: g2_def Composite_remove_def tier_inv_def)
  define g3 where "g3 = after (calculateScore g2)"
  have s3: "calculateScore g2 = Inr g3"
    unfolding g3_def by (rule calculateScore_returns) (simp add: f2)
  have f3: "length (fruitSizes g3) = 11" "length (fruitsMerged g3) = 11"
    using f2 by (simp_all add: g3_def)
  have c3: "0 < length (fruitSizes g3)" using f3 by simp
  obtain g4 where g4: "generateFruitBody g3 (width / 2) previewBallHeight 0
       \<lparr>cfg_isStatic = Some True, cfg_collisionMask = None\<rparr> = Inr (nextRef g3, g4)"
    and k4: "keeps_tiers g3 g4"
    using generateFruitBody_made [OF c3] by blast
  define g5 where "g5 = Composite_add (g4\<lparr>previewBall := Some (nextRef g3)\<rparr>) [nextRef g3]"
  have f5: "length (fruitSizes g5) = 11" "length (fruitsMerged g5) = 11"
    using k4 f3 by (simp_all add: g5_def Composite_add_def keeps_tiers_def)
  define g6 where "g6 = after (setNextFruitSize g5)"
  have s6: "setNextFruitSize g5 = Inr g6"
    unfolding g6_def by (rule setNextFruitSize_ok) (simp add: f5)
  have f6: "length (fruitSizes g6) = 11" "length (fruitsMerged g6) = 11" "nextFruitSize g6 < 5"
    using f5 setNextFruitSize_below_five [of g5] by (simp_all add: g6_def)
  define g7 where "g7 = g6\<lparr>currentFruitSize := nextFruitSize g6\<rparr>"
  have f7: "length (fruitSizes g7) = 11" "length (fruitsMerged g7) = 11" "currentFruitSize g7 < 5"
    using f6 by (simp_all add: g7_def)
  define g8 where "g8 = after (setNextFruitSize g7)"
  have s8: "setNextFruitSize g7 = Inr g8"
    unfolding g8_def by (rule setNextFruitSize_ok) (simp add: f7)
  have f8: "length (fruitSizes g8) = 11" "length (fruitsMerged g8) = 11" "currentFruitSize g8 < 5"
    "nextFruitSize g8 < 5"
    using f7 setNextFruitSize_below_five [of g7] by (simp_all add: g8_def)
  have "restartGame g = Inr (g8\<lparr>runner_enabled := True\<rparr>)"
    using s3 g4 s6 s8
    by (simp add: restartGame_def Let_def g2_def [symmetric] g5_def [symmetric] g7_def [symmetric])
  then show ?thesis
    using f8 by (simp add: tier_inv_def)
qed

lemma tier_inv_startGame:
  assumes inv: "tier_inv g"
  shows "tier_inv (after (startGame g statics))"
proof -
  define g1 where "g1 = Composite_add g statics"
  have f1: "tier_inv g1" using inv by (simp add: g1_def Composite_add_def tier_inv_def)
  define g2 where "g2 = after (calculateScore g1)"
  have s2: "calculateScore g1 = Inr g2"
    unfolding g2_def by (rule calculateScore_returns) (use f1 in \<open>simp add: tier_inv_def\<close>)
  define g3 where "g3 = g2\<lparr>endTitle := (case endTitle g2 of None \<Rightarrow> None | Some t \<Rightarrow> Some ''Game Over!'')\<rparr>"
  have f3: "tier_inv g3" using f1 by (simp add: g3_def g2_def tier_inv_def)
  have c3: "0 < length (fruitSizes g3)" using f3 by (simp add: tier_inv_def)
  obtain g4 where g4: "generateFruitBody g3 (width / 2) previewBallHeight 0
       \<lparr>cfg_isStatic = Some True, cfg_collisionMask = None\<rparr> = Inr (nextRef g3, g4)"
    and k4: "keeps_tiers g3 g4"
    using generateFruitBody_made [OF c3] by blast
  have "startGame g statics =
      Inr (Composite_add (g4\<lparr>previewBall := Some (nextRef g3)\<rparr>) [nextRef g3])"
    using s2 g4
    by (simp add: startGame_def Let_def g1_def [symmetric] g3_def [symmetric])
  then show ?thesis
    using k4 f3 by (simp add: tier_inv_def keeps_tiers_def Composite_add_def)
qed


lemma keeps_tiers_trans: "keeps_tiers g s \<Longrightarrow> keeps_tiers s t \<Longrightarrow> keeps_tiers g t"
  by (simp add: keeps_tiers_def)

lemma collisionLoop_keeps_tiers: "keeps_tiers g (outcome_state (collisionLoop g ps))"
proof (induction ps arbitrary: g)
  case Nil
  then show ?case by (simp add: keeps_tiers_def)
next
  case (Cons p ps)
  have turn: "keeps_tiers g (outcome_state (collisionPair g p))"
    using collisionPair_turn [of g p] by simp
  show ?case
  proof (cases "collisionPair g p")
    case (Inl e)
    with turn show ?thesis by simp
  next
    case (Inr c)
    show ?thesis
    proof (cases c)
      case (Continue g')
      with Inr turn Cons.IH [of g'] show ?thesis
        by (auto intro: keeps_tiers_trans)
    next
      case (Return g')
      with Inr turn show ?thesis by simp
    qed
  qed
qed

lemma tier_inv_fire: "tier_inv g \<Longrightarrow> tier_inv (fire g ev)"
proof (cases ev)
  case StartGame
  assume "tier_inv g"
  then show ?thesis using StartGame by (simp add: tier_inv_startGame)
next
  case RestartGame
  assume "tier_inv g"
  then show ?thesis using RestartGame by (simp add: tier_inv_restartGame)
next
  case (MouseUp x mouseX)
  assume "tier_inv g"
  then show ?thesis using MouseUp by (simp add: tier_inv_addFruit)
next
  case (MouseMove mouseX)
  assume "tier_inv g"
  then show ?thesis using MouseMove
    by (simp add: mousemove_def tier_inv_def split: option.splits)
next
  case (CollisionStart pairs)
  assume "tier_inv g"
  then show ?thesis
    using CollisionStart collisionLoop_keeps_tiers [of g pairs]
    by (simp add: after_collisionStart tier_inv_keeps)
next
  case ReadyTimeout
  assume "tier_inv g"
  then show ?thesis using ReadyTimeout by (simp add: ready_timeout_def tier_inv_def)
next
  case DropTimeout
  assume "tier_inv g"
  then show ?thesis using DropTimeout
    by (simp add: addFruit_timeout_def Composite_add_def tier_inv_def split: option.splits)
next
  case (PopTimeout ref)
  assume "tier_inv g"
  then show ?thesis using PopTimeout
    by (simp add: addPop_timeout_def Composite_remove_def tier_inv_def)
qed

lemma tier_inv_run: "tier_inv g \<Longrightarrow> tier_inv (run g evs)"
  unfolding run_def by (induction evs arbitrary: g) (simp_all add: tier_inv_fire)

lemma after_saveHighscore [simp]:
  "fruitSizes (after (saveHighscore g)) = fruitSizes g"
  "fruitsMerged (after (saveHighscore g)) = fruitsMerged g"
  "currentFruitSize (after (saveHighscore g)) = currentFruitSize g"
  "nextFruitSize (after (saveHighscore g)) = nextFruitSize g"
proof -
  have "fruitSizes (after (saveHighscore g)) = fruitSizes g \<and>
        fruitsMerged (after (saveHighscore g)) = fruitsMerged g \<and>
        currentFruitSize (after (saveHighscore g)) = currentFruitSize g \<and>
        nextFruitSize (after (saveHighscore g)) = nextFruitSize g"
  proof (cases "calculateScore g")
    case (Inl e)
    then show ?thesis
      using calculateScore_Inl [OF Inl] by (simp add: saveHighscore_result(1))
  next
    case (Inr g1)
    have f: "fruitSizes g1 = fruitSizes g" "fruitsMerged g1 = fruitsMerged g"
      "currentFruitSize g1 = currentFruitSize g" "nextFruitSize g1 = nextFruitSize g"
      by (subst calculateScore_Inr [OF Inr], simp)+
    show ?thesis
      using f by (cases "score g1 < cache_highscore g1") (simp_all add: saveHighscore_result(2,3) [OF Inr])
  qed
  then show "fruitSizes (after (saveHighscore g)) = fruitSizes g"
    "fruitsMerged (after (saveHighscore g)) = fruitsMerged g"
    "currentFruitSize (after (saveHighscore g)) = currentFruitSize g"
    "nextFruitSize (after (saveHighscore g)) = nextFruitSize g"
    by simp_all
qed

lemma tier_inv_initGame:
  assumes "tier_inv g"
  shows "tier_inv (after (initGame g))"
proof (cases "storage g")
  case None
  show ?thesis
  proof (cases "saveHighscore g")
    case (Inl e)
    then have "after (initGame g) = after (saveHighscore g)"
      using None by (simp add: initGame_def loadHighscore_def)
    then show ?thesis using assms by (simp add: tier_inv_def)
  next
    case (Inr g1)
    then have g1: "g1 = after (saveHighscore g)" by simp
    have "after (initGame g) = g1\<lparr>fruitsMerged := replicate (length (fruitSizes g1)) 0\<rparr>"
      using None Inr by (simp add: initGame_def loadHighscore_def)
    then show ?thesis using assms unfolding g1 by (simp add: tier_inv_def)
  qed
next
  case (Some h)
  then show ?thesis
    using assms by (simp add: initGame_def loadHighscore_def tier_inv_def)
qed

lemma tier_inv_page_load: "tier_inv (page_load seed stored volume reported)"
proof -
  have "tier_inv (Game_object seed stored volume reported)"
    by (simp add: Game_object_def tier_inv_def)
  then show ?thesis
    unfolding page_load_def by (rule tier_inv_initGame)
qed

section \<open>Sessions as the handlers build them\<close>

text \<open>
  \<open>as_built\<close> reads the engine's report, the merge counts, the catalog, the bodies and the
  next free reference only, and each stage of a handler keeps it: a new fruit is allocated
  at the next free reference with a tier of the catalog and the radius the engine reports
  for it, the pop effect is static, and a merge changes one counter and two \<open>popped\<close> flags.
\<close>

lemma as_built_irrelevant [simp]:
  "as_built (g\<lparr>stateIndex := v1\<rparr>) = as_built g"
  "as_built (g\<lparr>score := v2\<rparr>) = as_built g"
  "as_built (g\<lparr>currentFruitSize := v3\<rparr>) = as_built g"
  "as_built (g\<lparr>nextFruitSize := v4\<rparr>) = as_built g"
  "as_built (g\<lparr>cache_highscore := v5\<rparr>) = as_built g"
  "as_built (g\<lparr>previewBall := v6\<rparr>) = as_built g"
  "as_built (g\<lparr>nextFruitImg := v7\<rparr>) = as_built g"
  "as_built (g\<lparr>endTitle := v8\<rparr>) = as_built g"
  "as_built (g\<lparr>storage := v9\<rparr>) = as_built g"
  "as_built (g\<lparr>world := v10\<rparr>) = as_built g"
  "as_built (g\<lparr>runner_enabled := v11\<rparr>) = as_built g"
  "as_built (g\<lparr>rng := v12\<rparr>) = as_built g"
  by (simp_all add: as_built_def session_ok_def)

lemma as_built_frame:
  assumes "engineRadius s = engineRadius g" "heap s = heap g" "nextRef s = nextRef g"
    "fruitSizes s = fruitSizes g" "fruitsMerged s = fruitsMerged g"
  shows "as_built s = as_built g"
  using assms by (simp add: as_built_def session_ok_def)

lemma engineRadius_after [simp]:
  "engineRadius (after (calculateScore g)) = engineRadius g"
  "engineRadius (after (setNextFruitSize g)) = engineRadius g"
  using calculateScore_cases [of g]
  by (auto simp add: setNextFruitSize_def Let_def split_beta split: option.splits)

lemma as_built_after [simp]:
  "as_built (after (calculateScore g)) = as_built g"
  "as_built (after (setNextFruitSize g)) = as_built g"
  by (rule as_built_frame; simp)+

lemma as_built_loseGame: "as_built (after (loseGame g)) = as_built g"
  using calculateScore_cases [of "g\<lparr>stateIndex := LOSE\<rparr>"]
  by (auto simp add: loseGame_def originalLoseGame_def saveHighscore_def split: if_splits)

lemma silent_fromVertices:
  assumes "engine_silent rep"
  shows "circleRadiusOr0 (fromVertices rep x y vs cfg idx) = 0"
proof -
  have "rep vs = None \<or> rep vs = Some 0"
    using assms by (simp add: engine_silent_def)
  then show ?thesis by (auto simp add: circleRadiusOr0_def)
qed

lemma as_built_fruit:
  assumes b: "as_built g" and idx: "idx < length (fruitSizes g)"
  shows "as_built (g\<lparr>fruitSizes := (fruitSizes g)[idx := (fruitSizes g ! idx)
                               \<lparr>radius := Some (physicsRadius (fruitSizes g ! idx))\<rparr>],
            heap := (heap g)(nextRef g := fromVertices (engineRadius g) x y vs cfg idx),
            nextRef := Suc (nextRef g)\<rparr>)"
proof -
  have silent: "engine_silent (engineRadius g) \<longrightarrow>
      circleRadiusOr0 (fromVertices (engineRadius g) x y vs cfg idx) = 0"
    by (simp add: silent_fromVertices)
  have old: "0 < physicsRadius (fruitSizes g ! idx)"
    using b idx by (simp add: as_built_def)
  have cat: "0 < physicsRadius f \<and> (\<forall>m. radius f = Some m \<longrightarrow> 0 < m)"
    if "f \<in> set ((fruitSizes g)[idx := (fruitSizes g ! idx)
                               \<lparr>radius := Some (physicsRadius (fruitSizes g ! idx))\<rparr>])" for f
  proof -
    from that set_update_subset_insert
    have "f = (fruitSizes g ! idx)\<lparr>radius := Some (physicsRadius (fruitSizes g ! idx))\<rparr> \<or>
          f \<in> set (fruitSizes g)"
      by fastforce
    then show ?thesis using old b by (auto simp add: as_built_def)
  qed
  show ?thesis
    using b idx silent cat
    by (auto simp add: as_built_def session_ok_def less_Suc_eq)
qed

lemma as_built_generateFruitBody:
  "generateFruitBody g x y idx cfg = Inr (ref, g') \<Longrightarrow> as_built g \<Longrightarrow> as_built g'"
  by (cases "idx < length (fruitSizes g)")
     (auto simp add: generateFruitBody_ok generateFruitBody_fail as_built_fruit)

lemma generateFruitBody_Inl:
  "generateFruitBody g x y idx cfg = Inl e \<Longrightarrow> snd e = g"
  by (cases "idx < length (fruitSizes g)")
     (auto simp add: generateFruitBody_ok generateFruitBody_fail)

lemma as_built_addPop: "as_built g \<Longrightarrow> as_built (addPop g x y r)"
  by (auto simp add: addPop_eq as_built_def session_ok_def less_Suc_eq)

subsection \<open>The collision handler\<close>

lemma as_built_replaceFruits:
  assumes "as_built g"
  shows "as_built (outcome_state (replaceFruits g a b n x y r))"
proof (cases "n < length (fruitSizes g)")
  case True
  have "as_built (addPop (Composite_add (g\<lparr>world := w,
            fruitSizes := (fruitSizes g)[n := (fruitSizes g ! n)
                               \<lparr>radius := Some (physicsRadius (fruitSizes g ! n))\<rparr>],
            heap := (heap g)(nextRef g := fromVertices (engineRadius g) x y vs noConfig n),
            nextRef := Suc (nextRef g)\<rparr>) [nextRef g]) x y r)" for w vs
    using as_built_fruit [OF assms True, of x y vs noConfig]
    by (intro as_built_addPop) (simp add: Composite_add_def)
  then show ?thesis
    using True
    by (simp add: replaceFruits_def generateFruitBody_ok Composite_remove_def Let_def)
next
  case False
  then show ?thesis
    using assms
    by (simp add: replaceFruits_def generateFruitBody_fail Composite_remove_def Let_def)
qed

lemma as_built_marked:
  assumes "as_built g"
  shows "as_built (g\<lparr>fruitsMerged := (fruitsMerged g)[i := v],
      heap := (heap g)(a := (heap g a)\<lparr>popped := True\<rparr>, b := (heap g b)\<lparr>popped := True\<rparr>)\<rparr>)"
  using assms by (auto simp add: as_built_def session_ok_def circleRadiusOr0_def)

lemma mergeFruits_cases:
  "outcome_state (mergeFruits g a b i) = g \<or>
   outcome_state (mergeFruits g a b i) =
      g\<lparr>fruitsMerged := (fruitsMerged g)[i := fruitsMerged g ! i + 1],
        heap := (heap g)(a := (heap g a)\<lparr>popped := True\<rparr>, b := (heap g b)\<lparr>popped := True\<rparr>)\<rparr> \<or>
   (\<exists>n x y r. outcome_state (mergeFruits g a b i) =
      outcome_state (replaceFruits
        (g\<lparr>fruitsMerged := (fruitsMerged g)[i := fruitsMerged g ! i + 1],
           heap := (heap g)(a := (heap g a)\<lparr>popped := True\<rparr>, b := (heap g b)\<lparr>popped := True\<rparr>)\<rparr>)
        a b n x y r))"
  by (auto simp add: mergeFruits_def Let_def)

lemma as_built_mergeFruits:
  assumes "as_built g"
  shows "as_built (outcome_state (mergeFruits g a b i))"
  using mergeFruits_cases [of g a b i] as_built_marked [OF assms, where i = i and v = "fruitsMerged g ! i + 1" and a = a and b = b]
    as_built_replaceFruits assms
  by (elim disjE exE) simp_all

lemma as_built_collisionPair:
  assumes "as_built g"
  shows "as_built (outcome_state (collisionPair g p))"
  using collisionPair_cases [of g p] assms as_built_mergeFruits [OF assms]
  by (elim disjE conjE exE) (simp_all add: as_built_loseGame)

lemma as_built_collisionLoop:
  "as_built g \<Longrightarrow> as_built (outcome_state (collisionLoop g ps))"
proof (induction ps arbitrary: g)
  case Nil
  then show ?case by simp
next
  case (Cons p ps)
  have turn: "as_built (outcome_state (collisionPair g p))"
    using Cons.prems by (rule as_built_collisionPair)
  show ?case
  proof (cases "collisionPair g p")
    case (Inl e)
    with turn show ?thesis by simp
  next
    case (Inr c)
    show ?thesis
    proof (cases c)
      case (Continue g')
      with Inr turn Cons.IH [of g'] show ?thesis by simp
    next
      case (Return g')
      with Inr turn show ?thesis by simp
    qed
  qed
qed

subsection \<open>The other handlers, and runs from page load\<close>

lemma stage_built:
  "calculateScore g = Inr g' \<Longrightarrow> as_built g' = as_built g"
  "calculateScore g = Inl (e, g') \<Longrightarrow> as_built g' = as_built g"
  "setNextFruitSize g = Inr g' \<Longrightarrow> as_built g' = as_built g"
  "setNextFruitSize g = Inl (e, g') \<Longrightarrow> as_built g' = as_built g"
  "generateFruitBody g x y idx cfg = Inl (e, g') \<Longrightarrow> g' = g"
  "generateFruitBody g x y idx cfg = Inr (ref, g') \<Longrightarrow> as_built g \<longrightarrow> as_built g'"
  using as_built_after(1) [of g] as_built_after(2) [of g] generateFruitBody_Inl [of g x y idx cfg "(e, g')"]
    as_built_generateFruitBody [of g x y idx cfg ref g']
  by auto

lemma as_built_addFruit: "as_built g \<Longrightarrow> as_built (after (addFruit g x mouseX))"
  unfolding addFruit_def Let_def
  by (auto simp add: Composite_add_def Composite_remove_def
      split: sum.splits prod.splits option.splits
      dest!: stage_built)

lemma as_built_reset:
  "as_built g \<Longrightarrow>
   as_built (g\<lparr>world := w, score := s, fruitsMerged := replicate (length (fruitSizes g)) 0\<rparr>)"
  by (simp add: as_built_def session_ok_def)

lemma as_built_restartGame: "as_built g \<Longrightarrow> as_built (after (restartGame g))"
  unfolding restartGame_def Let_def
  by (auto simp add: Composite_add_def Composite_remove_def as_built_reset
      split: sum.splits prod.splits option.splits
      dest!: stage_built)

lemma as_built_startGame: "as_built g \<Longrightarrow> as_built (after (startGame g statics))"
  unfolding startGame_def Let_def
  by (auto simp add: Composite_add_def Composite_remove_def
      split: sum.splits prod.splits option.splits
      dest!: stage_built)


lemma as_built_mousemove: "as_built g \<Longrightarrow> as_built (mousemove g mouseX)"
  by (auto simp add: mousemove_def as_built_def session_ok_def circleRadiusOr0_def
      split: option.splits)

lemma as_built_fire: "as_built g \<Longrightarrow> as_built (fire g ev)"
  by (cases ev)
     (simp_all add: as_built_startGame as_built_restartGame as_built_addFruit as_built_mousemove
        after_collisionStart as_built_collisionLoop ready_timeout_def addFruit_timeout_def
        addPop_timeout_def Composite_add_def Composite_remove_def split: option.splits)

lemma as_built_run: "as_built g \<Longrightarrow> as_built (run g evs)"
  unfolding run_def by (induction evs arbitrary: g) (simp_all add: as_built_fire)

lemma defaultFruitSizes_positive:
  "\<forall>f\<in>set defaultFruitSizes. 0 < physicsRadius f \<and> radius f = None"
  by (simp add: defaultFruitSizes_def mkFruit_def physicsRadius_def)

lemma as_built_page_load: "as_built (page_load seed stored volume reported)"
  using defaultFruitSizes_positive
  by (cases stored)
     (simp_all add: page_load_def initGame_def loadHighscore_def saveHighscore_def
        calculateScore_def Game_object_def as_built_def session_ok_def staticBody_def)

subsection \<open>Exceptions of the collision handler\<close>

text \<open>
  In a session as built every fruit has a merge counter, so that the handler never
  increments a missing one: what leaves it is a \<^verbatim>\<open>TypeError\<close>, and the branch \<open>NaNStored\<close>
  of \<open>mergeFruits\<close> is not taken on any run from page load.
\<close>

lemma stage_throws:
  "generateFruitBody g x y idx cfg = Inl (e, s) \<Longrightarrow> e = TypeError"
  "calculateScore g = Inl (e, s) \<Longrightarrow> e = TypeError"
  using calculateScore_cases [of g]
  by (auto simp add: generateFruitBody_def Let_def split: if_splits)

lemma replaceFruits_throws:
  "replaceFruits g a b n x y r = Inl e \<Longrightarrow> fst e = TypeError"
  by (auto simp add: replaceFruits_def Let_def split: sum.splits dest!: stage_throws)

lemma loseGame_throws: "loseGame g = Inl e \<Longrightarrow> fst e = TypeError"
  by (auto simp add: loseGame_def originalLoseGame_def saveHighscore_def
      split: sum.splits if_splits dest!: stage_throws)

lemma collisionPair_throws:
  assumes "as_built g" and "collisionPair g p = Inl e"
  shows "fst e = TypeError"
proof -
  have "i < length (fruitsMerged g)"
    if "\<not> isStatic (heap g (fst p))" "sizeIndex (heap g (fst p)) = Some i" for i
    using that assms(1) by (auto simp add: as_built_def session_ok_def)
  then show ?thesis
    using assms(2) replaceFruits_throws loseGame_throws
    by (auto simp add: collisionPair_def mergeFruits_def Let_def
        split: if_splits option.splits sum.splits)
qed

lemma collisionLoop_throws:
  "as_built g \<Longrightarrow> collisionLoop g ps = Inl e \<Longrightarrow> fst e = TypeError"
proof (induction ps arbitrary: g)
  case Nil
  then show ?case by simp
next
  case (Cons p ps)
  show ?case
  proof (cases "collisionPair g p")
    case (Inl e')
    with Cons.prems show ?thesis using collisionPair_throws [of g p e'] by simp
  next
    case (Inr c)
    show ?thesis
    proof (cases c)
      case (Continue g')
      have "as_built g'"
        using as_built_collisionPair [OF Cons.prems(1), of p] Inr Continue by simp
      then show ?thesis
        using Cons.IH [of g'] Cons.prems(2) Inr Continue by simp
    next
      case (Return g')
      with Inr Cons.prems show ?thesis by simp
    qed
  qed
qed

lemma collisionStart_never_NaNStored:
  "collisionStart (run (page_load seed stored volume reported) evs) ps \<noteq> Inl (NaNStored, s)"
proof
  let ?g = "run (page_load seed stored volume reported) evs"
  assume "collisionStart ?g ps = Inl (NaNStored, s)"
  then have "collisionLoop ?g ps = Inl (NaNStored, s)"
    by (auto simp add: collisionStart_def split: sum.splits)
  moreover have "as_built ?g"
    by (rule as_built_run) (rule as_built_page_load)
  ultimately show False
    using collisionLoop_throws [of ?g ps "(NaNStored, s)"] by simp
qed

subsection \<open>The radius guard, and the examples\<close>

text \<open>
  With a silent engine the wrap-around guard of the handler compares 0, the radius reported
  for \<open>bodyA\<close>, with the positive radius cached on the last tier: it does not fire for any
  non-static body.
\<close>

lemma guard_never_fires:
  assumes built: "as_built g" and silent: "engine_silent (engineRadius g)"
    and st: "\<not> isStatic (heap g a)" and ne: "fruitSizes g \<noteq> []"
  shows "\<not> (case radius (fruitSizes g ! (length (fruitSizes g) - 1)) of
                None \<Rightarrow> False
              | Some m \<Rightarrow> m \<noteq> 0 \<and> m \<le> circleRadiusOr0 (heap g a))"
proof -
  have r0: "circleRadiusOr0 (heap g a) = 0"
    using built silent st by (simp add: as_built_def)
  have "fruitSizes g ! (length (fruitSizes g) - 1) \<in> set (fruitSizes g)"
    using ne by simp
  then have "\<forall>m. radius (fruitSizes g ! (length (fruitSizes g) - 1)) = Some m \<longrightarrow> 0 < m"
    using built by (simp add: as_built_def)
  then show ?thesis
    unfolding r0 by (auto split: option.splits)
qed

text \<open>
  So every merge of two fruits of the last tier fails: the successor is asked for at a tier
  that the catalog does not have.
\<close>

lemma top_tier_pair_throws:
  assumes built: "as_built g" and silent: "engine_silent (engineRadius g)"
    and st: "\<not> isStatic (heap g a)" "\<not> isStatic (heap g b)"
    and si: "sizeIndex (heap g a) = Some (length (fruitSizes g) - 1)"
            "sizeIndex (heap g b) = Some (length (fruitSizes g) - 1)"
    and pp: "\<not> popped (heap g a)" "\<not> popped (heap g b)"
    and hi: "loseHeight \<le> position_y (heap g a) + circleRadiusOr0 (heap g a)"
            "loseHeight \<le> position_y (heap g b) + circleRadiusOr0 (heap g b)"
  shows "collisionPair g (a, b) =
     Inl (TypeError,
          g\<lparr>fruitsMerged := (fruitsMerged g)[length (fruitSizes g) - 1 :=
                                 fruitsMerged g ! (length (fruitSizes g) - 1) + 1],
            heap := (heap g)(a := (heap g a)\<lparr>popped := True\<rparr>, b := (heap g b)\<lparr>popped := True\<rparr>),
            world := remove1 b (remove1 a (world g))\<rparr>)"
proof -
  have "length (fruitSizes g) - 1 < length (fruitSizes g)"
    using built st(1) si(1) by (simp add: as_built_def)
  then have ne: "fruitSizes g \<noteq> []" by auto
  have ok: "session_ok g" using built by (simp add: as_built_def)
  show ?thesis
    using st ne si pp hi guard_never_fires [OF built silent st(1) ne] ok
    by (rule top_tier_without_wrap)
qed

lemma playing_engine [simp]: "engineRadius (playing fs A B C) = (\<lambda>vs. None)"
  by (simp add: playing_def Game_object_def)

lemma engine_silent_None [simp]: "engine_silent (\<lambda>vs. None)"
  by (simp add: engine_silent_def)

lemma as_built_playing:
  assumes "\<forall>f\<in>set fs. 0 < physicsRadius f \<and> (\<forall>m. radius f = Some m \<longrightarrow> 0 < m)"
    and "length fs \<le> 11" and "ia < length fs" and "ib < length fs" and "ic < length fs"
  shows "as_built (playing fs (fruitAt ia xa ya None) (fruitAt ib xb yb None) (fruitAt ic xc yc None))"
  using assms
  by (auto simp add: as_built_def session_ok_def playing_def Game_object_def staticBody_def
      circleRadiusOr0_def)


lemma as_built_lose_example: "as_built lose_example"
  unfolding lose_example_def
  by (rule as_built_playing) (use defaultFruitSizes_positive in simp_all)

lemma length_cachedFruitSizes [simp]: "length cachedFruitSizes = 11"
  by (simp add: cachedFruitSizes_def)

lemma cachedFruitSizes_positive:
  "\<forall>f\<in>set cachedFruitSizes. 0 < physicsRadius f \<and> (\<forall>m. radius f = Some m \<longrightarrow> 0 < m)"
  using defaultFruitSizes_positive by (auto simp add: cachedFruitSizes_def)

lemma cachedFruitSizes_top [simp]: "radius (cachedFruitSizes ! 10) = Some 191.777"
  by (simp add: cachedFruitSizes_def defaultFruitSizes_def mkFruit_def physicsRadius_def)

lemma as_built_top_example: "as_built top_example"
proof -
  have "as_built (playing cachedFruitSizes (fruitAt 10 192 720 None) (fruitAt 10 448 435 None)
        (fruitAt 10 192 150 None))"
    by (rule as_built_playing) (use cachedFruitSizes_positive in simp_all)
  then show ?thesis
    by (simp add: top_example_def as_built_def session_ok_def)
qed

lemma top_example_fields [simp]:
  "heap top_example 3 = fruitAt 10 192 720 None" "heap top_example 4 = fruitAt 10 448 435 None"
  "heap top_example 5 = fruitAt 10 192 150 None"
  "nextRef top_example = 6" "world top_example = [0, 1, 2, 3, 4, 5]"
  "fruitSizes top_example = cachedFruitSizes"
  "fruitsMerged top_example = [0, 0, 0, 0, 96, 48, 24, 12, 6, 3, 0]"
  "score top_example = 4704" "engineRadius top_example = (\<lambda>vs. None)"
  by (simp_all add: top_example_def)

lemma cachedFruitSizes_nonempty [simp]: "cachedFruitSizes \<noteq> []"
  using length_cachedFruitSizes by fastforce

lemma top_counts:
  "([0, 0, 0, 0, 96, 48, 24, 12, 6, 3, 0] :: int list)[10 := v] = [0, 0, 0, 0, 96, 48, 24, 12, 6, 3, v]"
  "([0, 0, 0, 0, 96, 48, 24, 12, 6, 3, 0] :: int list) ! 10 = 0"
  by (simp_all add: eval_nat_numeral)

lemma top_pair_throws:
  "collisionPair top_example (3, 4) =
     Inl (TypeError,
          top_example\<lparr>fruitsMerged := [0, 0, 0, 0, 96, 48, 24, 12, 6, 3, 1],
            heap := (heap top_example)(3 := (fruitAt 10 192 720 None)\<lparr>popped := True\<rparr>,
                                        4 := (fruitAt 10 448 435 None)\<lparr>popped := True\<rparr>),
            world := [0, 1, 2, 5]\<rparr>)"
proof -
  have "collisionPair top_example (3, 4) =
     Inl (TypeError,
          top_example\<lparr>fruitsMerged := (fruitsMerged top_example)[length (fruitSizes top_example) - 1 :=
                                 fruitsMerged top_example ! (length (fruitSizes top_example) - 1) + 1],
            heap := (heap top_example)(3 := (heap top_example 3)\<lparr>popped := True\<rparr>,
                                        4 := (heap top_example 4)\<lparr>popped := True\<rparr>),
            world := remove1 4 (remove1 3 (world top_example))\<rparr>)"
    by (rule top_tier_pair_throws [OF as_built_top_example])
       (simp_all add: loseHeight_def circleRadiusOr0_def)
  then show ?thesis
    by (simp add: top_counts)
qed

text \<open>The lose check as the handler makes it: it adds the radius to \<^verbatim>\<open>position.y\<close>.\<close>

lemma lose_lower_edge:
  assumes reach: "collisionLoop g pre = Inr (Continue g1)"
    and st: "\<not> isStatic (heap g1 a)" "\<not> isStatic (heap g1 b)"
    and low: "position_y (heap g1 a) + circleRadiusOr0 (heap g1 a) < loseHeight \<or>
              position_y (heap g1 b) + circleRadiusOr0 (heap g1 b) < loseHeight"
  shows "collisionStart g (pre @ (a, b) # post) = loseGame g1"
  unfolding collisionStart_def collisionLoop_append [OF reach]
  by (cases "loseGame g1") (simp_all add: lose_turn [OF st low])

subsection \<open>The engine's report along a batch\<close>

lemma engineRadius_replaceFruits:
  "engineRadius (outcome_state (replaceFruits g a b n x y r)) = engineRadius g"
  by (cases "n < length (fruitSizes g)")
     (simp_all add: replaceFruits_def generateFruitBody_ok generateFruitBody_fail addPop_eq
        Composite_add_def Composite_remove_def Let_def)

lemma engineRadius_loseGame: "engineRadius (after (loseGame g)) = engineRadius g"
  using calculateScore_cases [of "g\<lparr>stateIndex := LOSE\<rparr>"]
  by (auto simp add: loseGame_def originalLoseGame_def saveHighscore_def split: if_splits)

lemma engineRadius_collisionPair:
  "engineRadius (outcome_state (collisionPair g p)) = engineRadius g"
proof -
  have "engineRadius (outcome_state (mergeFruits g a b i)) = engineRadius g" for a b i
    using mergeFruits_cases [of g a b i]
    by (elim disjE exE) (simp_all add: engineRadius_replaceFruits)
  then show ?thesis
    using collisionPair_cases [of g p]
    by (elim disjE conjE exE) (simp_all add: engineRadius_loseGame)
qed

lemma engineRadius_collisionLoop:
  "collisionLoop g ps = Inr (Continue g1) \<Longrightarrow> engineRadius g1 = engineRadius g"
proof (induction ps arbitrary: g)
  case Nil
  then show ?case by simp
next
  case (Cons p ps)
  show ?case
  proof (cases "collisionPair g p")
    case (Inl e)
    with Cons.prems show ?thesis by simp
  next
    case (Inr c)
    show ?thesis
    proof (cases c)
      case (Continue g')
      have "engineRadius g' = engineRadius g"
        using engineRadius_collisionPair [of g p] Inr Continue by simp
      then show ?thesis
        using Cons.IH [of g'] Cons.prems Inr Continue by simp
    next
      case (Return g')
      with Inr Cons.prems show ?thesis by simp
    qed
  qed
qed

section \<open>The world as the handlers build it\<close>

text \<open>
  \<open>world_ok\<close> reads the world, the bodies, the next free reference and the preview ball.
  A body enters the world when it has just been allocated, or as the static preview ball
  or a wall; bodies are never made non-static; and removing bodies keeps the rest.
\<close>

lemma world_ok_irrelevant [simp]:
  "world_ok (g\<lparr>stateIndex := v1\<rparr>) = world_ok g"
  "world_ok (g\<lparr>score := v2\<rparr>) = world_ok g"
  "world_ok (g\<lparr>currentFruitSize := v3\<rparr>) = world_ok g"
  "world_ok (g\<lparr>nextFruitSize := v4\<rparr>) = world_ok g"
  "world_ok (g\<lparr>cache_highscore := v5\<rparr>) = world_ok g"
  "world_ok (g\<lparr>fruitsMerged := v6\<rparr>) = world_ok g"
  "world_ok (g\<lparr>nextFruitImg := v7\<rparr>) = world_ok g"
  "world_ok (g\<lparr>endTitle := v8\<rparr>) = world_ok g"
  "world_ok (g\<lparr>storage := v9\<rparr>) = world_ok g"
  "world_ok (g\<lparr>fruitSizes := v10\<rparr>) = world_ok g"
  "world_ok (g\<lparr>runner_enabled := v11\<rparr>) = world_ok g"
  "world_ok (g\<lparr>rng := v12\<rparr>) = world_ok g"
  by (simp_all add: world_ok_def)

lemma world_ok_frame:
  assumes "heap s = heap g" "nextRef s = nextRef g" "world s = world g" "previewBall s = previewBall g"
  shows "world_ok s = world_ok g"
  using assms by (simp add: world_ok_def)

lemma world_ok_after [simp]:
  "world_ok (after (calculateScore g)) = world_ok g"
  "world_ok (after (setNextFruitSize g)) = world_ok g"
  by (rule world_ok_frame; simp)+

lemma previewBall_loseGame: "previewBall (after (loseGame g)) = previewBall g"
  using calculateScore_cases [of "g\<lparr>stateIndex := LOSE\<rparr>"]
  by (auto simp add: loseGame_def originalLoseGame_def saveHighscore_def split: if_splits)

lemma world_ok_loseGame: "world_ok (after (loseGame g)) = world_ok g"
  using loseGame_effect [of g] previewBall_loseGame [of g]
  by (intro world_ok_frame) simp_all

lemma distinct_filter_remove1:
  "distinct (filter P xs) \<Longrightarrow> distinct (filter P (remove1 x xs))"
proof (induction xs)
  case Nil
  then show ?case by simp
next
  case (Cons y ys)
  have "set (remove1 x ys) \<subseteq> set ys" by (rule set_remove1_subset)
  then show ?case using Cons by auto
qed

lemma listed_remove:
  assumes "(\<forall>r\<in>set w. r < n) \<and> distinct (filter P w)"
  shows "(\<forall>r\<in>set (fold remove1 rs w). r < n) \<and> distinct (filter P (fold remove1 rs w))"
  using assms
proof (induction rs arbitrary: w)
  case Nil
  then show ?case by simp
next
  case (Cons x rs)
  have "set (remove1 x w) \<subseteq> set w" by (rule set_remove1_subset)
  then have "(\<forall>r\<in>set (remove1 x w). r < n) \<and> distinct (filter P (remove1 x w))"
    using Cons.prems distinct_filter_remove1 [of P w x] by auto
  then show ?case using Cons.IH [of "remove1 x w"] by simp
qed

lemma world_ok_remove:
  "world_ok g \<Longrightarrow> world_ok (g\<lparr>world := fold remove1 rs (world g)\<rparr>)"
  using listed_remove [of "world g" "nextRef g" "\<lambda>r. \<not> isStatic (heap g r)" rs]
  by (simp add: world_ok_def)

lemma world_ok_alloc:
  assumes ok: "world_ok g"
    and h: "\<forall>r. r \<noteq> nextRef g \<longrightarrow> heap s r = heap g r"
    and n: "nextRef s = Suc (nextRef g)"
    and w: "world s = world g \<or> world s = world g @ [nextRef g]"
    and p: "previewBall s = previewBall g \<or>
            (previewBall s = Some (nextRef g) \<and> isStatic (heap s (nextRef g)))"
  shows "world_ok s"
proof -
  have old: "\<forall>r\<in>set (world g). r < nextRef g" using ok by (simp add: world_ok_def)
  have same: "filter (\<lambda>r. \<not> isStatic (heap s r)) (world g) =
              filter (\<lambda>r. \<not> isStatic (heap g r)) (world g)"
    using old by (intro filter_cong) (auto simp add: h)
  have fresh: "nextRef g \<notin> set (world g)" using old by auto
  have d: "distinct (filter (\<lambda>r. \<not> isStatic (heap s r)) (world s))"
    using w ok fresh by (auto simp add: same world_ok_def)
  have l: "\<forall>r\<in>set (world s). r < nextRef s"
    using w old n by (auto simp add: less_Suc_eq)
  have st: "\<forall>r\<in>set gameStatics. r < nextRef s \<and> isStatic (heap s r)"
    using ok n h by (auto simp add: world_ok_def)
  have pb: "\<forall>q. previewBall s = Some q \<longrightarrow> q < nextRef s \<and> isStatic (heap s q)"
  proof (intro allI impI)
    fix q assume q: "previewBall s = Some q"
    from p show "q < nextRef s \<and> isStatic (heap s q)"
    proof
      assume "previewBall s = previewBall g"
      then have "previewBall g = Some q" using q by simp
      then have "q < nextRef g \<and> isStatic (heap g q)" using ok by (simp add: world_ok_def)
      then show ?thesis using n h by auto
    next
      assume "previewBall s = Some (nextRef g) \<and> isStatic (heap s (nextRef g))"
      then show ?thesis using q n h by auto
    qed
  qed
  show ?thesis
    using d l st pb by (simp add: world_ok_def)
qed

lemma world_ok_generateFruitBody:
  assumes "generateFruitBody g x y idx cfg = Inr (ref, g')"
  shows "world_ok g \<longrightarrow>
     world_ok g' \<and> world_ok (g'\<lparr>world := world g' @ [ref]\<rparr>) \<and>
     (cfg_isStatic cfg = Some True \<longrightarrow>
        world_ok (g'\<lparr>previewBall := Some ref\<rparr>) \<and>
        world_ok (g'\<lparr>previewBall := Some ref, world := world g' @ [ref]\<rparr>))"
proof (cases "idx < length (fruitSizes g)")
  case True
  from assms have r: "ref = nextRef g" and g': "g' =
      g\<lparr>fruitSizes := (fruitSizes g)[idx := (fruitSizes g ! idx)
                               \<lparr>radius := Some (physicsRadius (fruitSizes g ! idx))\<rparr>],
            heap := (heap g)(nextRef g :=
               fromVertices (engineRadius g) x y (fruitVertices (isMobile g) (fruitSizes g ! idx)
                  (physicsRadius (fruitSizes g ! idx))) cfg idx),
            nextRef := Suc (nextRef g)\<rparr>"
    unfolding generateFruitBody_ok [OF True] by auto
  show ?thesis
  proof (intro impI conjI)
    assume ok: "world_ok g"
    show "world_ok g'"
      by (rule world_ok_alloc [OF ok]) (simp_all add: g')
    show "world_ok (g'\<lparr>world := world g' @ [ref]\<rparr>)"
      by (rule world_ok_alloc [OF ok]) (simp_all add: g' r)
    assume static: "cfg_isStatic cfg = Some True"
    show "world_ok (g'\<lparr>previewBall := Some ref\<rparr>)"
      by (rule world_ok_alloc [OF ok]) (simp_all add: g' r static)
    show "world_ok (g'\<lparr>previewBall := Some ref, world := world g' @ [ref]\<rparr>)"
      by (rule world_ok_alloc [OF ok]) (simp_all add: g' r static)
  qed
next
  case False
  from assms show ?thesis
    unfolding generateFruitBody_fail [OF False] by simp
qed

lemma world_ok_addPop: "world_ok g \<Longrightarrow> world_ok (addPop g x y r)"
  by (erule world_ok_alloc) (simp_all add: addPop_eq)

lemma world_ok_replaceFruits:
  assumes "world_ok g"
  shows "world_ok (outcome_state (replaceFruits g a b n x y r))"
proof -
  have rm: "world_ok (Composite_remove g [a, b])"
    using world_ok_remove [OF assms, of "[a, b]"] by (simp add: Composite_remove_def)
  show ?thesis
  proof (cases "generateFruitBody (Composite_remove g [a, b]) x y n noConfig")
    case (Inl e)
    then have "snd e = Composite_remove g [a, b]"
      by (auto simp add: generateFruitBody_def Let_def split: if_splits)
    then show ?thesis using Inl rm by (simp add: replaceFruits_def)
  next
    case (Inr p)
    obtain ref g2 where p: "p = (ref, g2)" by (cases p)
    have "world_ok (Composite_add g2 [ref])"
      using world_ok_generateFruitBody [OF Inr [unfolded p]] rm by (simp add: Composite_add_def)
    then have "world_ok (addPop (Composite_add g2 [ref]) x y r)"
      by (rule world_ok_addPop)
    then show ?thesis
      using Inr p by (simp add: replaceFruits_def Let_def)
  qed
qed

lemma world_ok_marked:
  assumes "world_ok g"
  shows "world_ok (g\<lparr>fruitsMerged := cs,
      heap := (heap g)(a := (heap g a)\<lparr>popped := True\<rparr>, b := (heap g b)\<lparr>popped := True\<rparr>)\<rparr>)"
proof -
  have "filter (\<lambda>r. \<not> isStatic (((heap g)(a := (heap g a)\<lparr>popped := True\<rparr>,
                                            b := (heap g b)\<lparr>popped := True\<rparr>)) r)) (world g) =
        filter (\<lambda>r. \<not> isStatic (heap g r)) (world g)"
    by (intro filter_cong) auto
  then show ?thesis
    using assms by (auto simp add: world_ok_def)
qed

lemma world_ok_mergeFruits:
  assumes "world_ok g"
  shows "world_ok (outcome_state (mergeFruits g a b i))"
  using mergeFruits_cases [of g a b i]
    world_ok_marked [OF assms, where cs = "(fruitsMerged g)[i := fruitsMerged g ! i + 1]" and a = a and b = b]
    world_ok_replaceFruits assms
  by (elim disjE exE) simp_all

lemma world_ok_collisionPair:
  assumes "world_ok g"
  shows "world_ok (outcome_state (collisionPair g p))"
  using collisionPair_cases [of g p] assms world_ok_mergeFruits [OF assms]
  by (elim disjE conjE exE) (simp_all add: world_ok_loseGame)

lemma world_ok_collisionLoop:
  "world_ok g \<Longrightarrow> world_ok (outcome_state (collisionLoop g ps))"
proof (induction ps arbitrary: g)
  case Nil
  then show ?case by simp
next
  case (Cons p ps)
  have turn: "world_ok (outcome_state (collisionPair g p))"
    using Cons.prems by (rule world_ok_collisionPair)
  show ?case
  proof (cases "collisionPair g p")
    case (Inl e)
    with turn show ?thesis by simp
  next
    case (Inr c)
    show ?thesis
    proof (cases c)
      case (Continue g')
      with Inr turn Cons.IH [of g'] show ?thesis by simp
    next
      case (Return g')
      with Inr turn show ?thesis by simp
    qed
  qed
qed

lemma stage_world:
  "calculateScore g = Inr g' \<Longrightarrow> world_ok g' = world_ok g"
  "calculateScore g = Inl (e, g') \<Longrightarrow> world_ok g' = world_ok g"
  "setNextFruitSize g = Inr g' \<Longrightarrow> world_ok g' = world_ok g"
  "setNextFruitSize g = Inl (e, g') \<Longrightarrow> world_ok g' = world_ok g"
  "generateFruitBody g x y idx cfg = Inl (e, g') \<Longrightarrow> g' = g"
  using world_ok_after(1) [of g] world_ok_after(2) [of g]
  by (auto simp add: generateFruitBody_def Let_def split: if_splits)

lemma world_ok_unlist:
  "world_ok g \<Longrightarrow> world_ok (g\<lparr>world := remove1 r (world g)\<rparr>)"
  using world_ok_remove [of g "[r]"] by simp

lemma world_ok_addFruit: "world_ok g \<Longrightarrow> world_ok (after (addFruit g x mouseX))"
  unfolding addFruit_def Let_def
  by (auto simp add: Composite_add_def Composite_remove_def world_ok_unlist
      split: sum.splits prod.splits option.splits
      dest!: stage_world world_ok_generateFruitBody)

lemma world_ok_restartGame: "world_ok g \<Longrightarrow> world_ok (after (restartGame g))"
  unfolding restartGame_def Let_def
  by (auto simp add: Composite_add_def Composite_remove_def world_ok_remove
      split: sum.splits prod.splits option.splits
      dest!: stage_world world_ok_generateFruitBody)

lemma world_ok_statics:
  "world_ok g \<Longrightarrow> world_ok (g\<lparr>world := world g @ gameStatics\<rparr>)"
  by (auto simp add: world_ok_def)

lemma world_ok_startGame: "world_ok g \<Longrightarrow> world_ok (after (startGame g gameStatics))"
  unfolding startGame_def Let_def
  by (auto simp add: Composite_add_def Composite_remove_def world_ok_statics
      split: sum.splits prod.splits option.splits
      dest!: stage_world world_ok_generateFruitBody)

lemma world_ok_mousemove: "world_ok g \<Longrightarrow> world_ok (mousemove g mouseX)"
proof (cases "previewBall g")
  case None
  then show "world_ok g \<Longrightarrow> world_ok (mousemove g mouseX)" by (simp add: mousemove_def)
next
  case (Some pb)
  have "filter (\<lambda>r. \<not> isStatic (((heap g)(pb := (heap g pb)\<lparr>position_x := mouseX\<rparr>)) r)) (world g) =
        filter (\<lambda>r. \<not> isStatic (heap g r)) (world g)"
    by (intro filter_cong) auto
  then show "world_ok g \<Longrightarrow> world_ok (mousemove g mouseX)"
    using Some by (auto simp add: mousemove_def world_ok_def)
qed

lemma world_ok_addFruit_timeout: "world_ok g \<Longrightarrow> world_ok (addFruit_timeout g)"
  by (auto simp add: addFruit_timeout_def Composite_add_def world_ok_def split: option.splits)

lemma world_ok_fire: "world_ok g \<Longrightarrow> world_ok (fire g ev)"
  by (cases ev)
     (simp_all add: world_ok_startGame world_ok_restartGame world_ok_addFruit world_ok_mousemove
        after_collisionStart world_ok_collisionLoop ready_timeout_def world_ok_addFruit_timeout
        addPop_timeout_def Composite_remove_def world_ok_unlist)

lemma world_ok_run: "world_ok g \<Longrightarrow> world_ok (run g evs)"
  unfolding run_def by (induction evs arbitrary: g) (simp_all add: world_ok_fire)

lemma world_ok_page_load: "world_ok (page_load seed stored volume reported)"
  by (cases stored)
     (simp_all add: page_load_def initGame_def loadHighscore_def saveHighscore_def
        calculateScore_def Game_object_def world_ok_def staticBody_def gameStatics_def)

lemma page_load_run:
  "as_built (run (page_load seed stored volume reported) evs) \<and>
   world_ok (run (page_load seed stored volume reported) evs)"
  by (simp add: as_built_run as_built_page_load world_ok_run world_ok_page_load)


lemma world_ok_playing:
  "world_ok (playing fs (fruitAt ia xa ya ra) (fruitAt ib xb yb rb) (fruitAt ic xc yc rc))"
  by (simp add: world_ok_def playing_def Game_object_def staticBody_def gameStatics_def)


lemma world_ok_top_example: "world_ok top_example"
  using world_ok_playing [of cachedFruitSizes 10 192 720 None 10 448 435 None 10 192 150 None]
  by (simp add: top_example_def world_ok_def)

section \<open>Properties\<close>

subsection \<open>Vertex generation\<close>

text \<open>
  Claim C7. For every radius \<open>r > 0\<close> and every integer number of sides \<open>s \<ge> 3\<close>,
  \<open>createCircleVertices\<close> returns exactly \<open>s\<close> points; point \<open>k\<close> is
  \<open>(r cos (2\<pi>k/s), r sin (2\<pi>k/s))\<close>, so the points start at angle 0 and advance by
  \<open>2\<pi>/s\<close>, and each lies at Euclidean distance \<open>r\<close> from the origin. The result depends on
  the arguments only (the device flag is read only when no side count is given). Numbers
  are real numbers here.
\<close>

theorem createCircleVertices_points:
  assumes "0 < r" and "3 \<le> s"
  shows "length (createCircleVertices mobile r (Some s)) = nat s \<and>
     (\<forall>k < nat s.
        createCircleVertices mobile r (Some s) ! k =
          (r * cos (2 * pi * real k / real_of_int s), r * sin (2 * pi * real k / real_of_int s)) \<and>
        sqrt ((fst (createCircleVertices mobile r (Some s) ! k))\<^sup>2 +
              (snd (createCircleVertices mobile r (Some s) ! k))\<^sup>2) = r) \<and>
     createCircleVertices True r (Some s) = createCircleVertices False r (Some s)"
proof -
  have s0: "0 \<le> s" using assms by simp
  have dist: "sqrt ((r * cos a)\<^sup>2 + (r * sin a)\<^sup>2) = r" for a
  proof -
    have "(r * cos a)\<^sup>2 + (r * sin a)\<^sup>2 = r\<^sup>2 * ((cos a)\<^sup>2 + (sin a)\<^sup>2)"
      by (simp only: power_mult_distrib distrib_left)
    also have "\<dots> = r\<^sup>2" by simp
    finally show ?thesis using assms(1) by simp
  qed
  show ?thesis
    by (simp add: createCircleVertices_map [OF s0] dist mult.commute mult.left_commute)
qed

theorem createCircleVertices_points_witness:
  "length (createCircleVertices False 2 (Some 4)) = 4 \<and>
   createCircleVertices False 2 (Some 4) ! 1 = (2 * cos (2 * pi / 4), 2 * sin (2 * pi / 4)) \<and>
   sqrt ((fst (createCircleVertices False 2 (Some 4) ! 1))\<^sup>2 +
         (snd (createCircleVertices False 2 (Some 4) ! 1))\<^sup>2) = 2"
  using createCircleVertices_points [of 2 4 False] by simp

subsection \<open>Drop requests outside READY\<close>

text \<open>
  Claim C9. A call of \<open>addFruit\<close> while the session state is not \<open>READY\<close> (for one, while it
  is \<open>DROP\<close>) returns at once and leaves the whole session as it was: no body is made or
  added to the world, \<open>currentFruitSize\<close> and \<open>nextFruitSize\<close> keep their values, the state
  does not change, and nothing is kept for later.
\<close>

theorem addFruit_ignored_unless_READY:
  assumes "stateIndex g \<noteq> READY"
  shows "addFruit g x mouseX = Inr g"
  using assms by (simp add: addFruit_def)

theorem addFruit_ignored_unless_READY_witness:
  "addFruit ((Game_object 1 None 0.7 (\<lambda>vs. None))\<lparr>stateIndex := DROP\<rparr>) 320 320 =
     Inr ((Game_object 1 None 0.7 (\<lambda>vs. None))\<lparr>stateIndex := DROP\<rparr>)"
  using addFruit_ignored_unless_READY [of "(Game_object 1 None 0.7 (\<lambda>vs. None))\<lparr>stateIndex := DROP\<rparr>" 320 320]
  by simp

subsection \<open>Merging a pair\<close>



subsection \<open>Wrap-around at the top tier\<close>

text \<open>
  Claim C3: when two fruits of the last tier merge, the successor is a fruit of tier 0 and
  not of tier \<open>lastTierIndex + 1\<close>. The handler does not do this. It means to (its comment
  reads \<^verbatim>\<open>Go back to smallest size if max fruit reached\<close>), by comparing the circle radius
  reported for \<open>bodyA\<close> with the radius cached on the last tier; but a fruit is made from
  vertices and reports none, so the comparison fails (\<open>guard_never_fires\<close>) and the
  successor is asked for at tier \<open>lastTierIndex + 1\<close>, in every session as built
  (\<open>top_tier_pair_throws\<close>).

  In \<open>top_example\<close>, a session as built (\<open>as_built_top_example\<close>, \<open>world_ok_top_example\<close>),
  the bodies 3 and 4 are unpopped fruits of tier 10, the last one, and the radius 191.777
  is cached on that tier. The batch of the pair \<open>(3, 4)\<close> ends with a \<^verbatim>\<open>TypeError\<close>: the
  counter of tier 10 has grown by one, both inputs are marked popped and have left the
  world, no body has been allocated in their place, and the score has not been
  recomputed.
\<close>

theorem top_tier_merge_throws:
  "engine_silent (engineRadius top_example) \<and>
   length (fruitSizes top_example) - 1 = 10 \<and>
   radius (fruitSizes top_example ! 10) = Some 191.777 \<and>
   sizeIndex (heap top_example 3) = Some 10 \<and> sizeIndex (heap top_example 4) = Some 10 \<and>
   circleRadius (heap top_example 3) = None \<and> circleRadius (heap top_example 4) = None \<and>
   \<not> isStatic (heap top_example 3) \<and> \<not> isStatic (heap top_example 4) \<and>
   \<not> popped (heap top_example 3) \<and> \<not> popped (heap top_example 4) \<and>
   collisionStart top_example [(3, 4)] =
     Inl (TypeError, after (collisionStart top_example [(3, 4)])) \<and>
   world (after (collisionStart top_example [(3, 4)])) = [0, 1, 2, 5] \<and>
   nextRef (after (collisionStart top_example [(3, 4)])) = nextRef top_example \<and>
   popped (heap (after (collisionStart top_example [(3, 4)])) 3) \<and>
   popped (heap (after (collisionStart top_example [(3, 4)])) 4) \<and>
   fruitsMerged (after (collisionStart top_example [(3, 4)])) =
     [0, 0, 0, 0, 96, 48, 24, 12, 6, 3, 1] \<and>
   score (after (collisionStart top_example [(3, 4)])) = score top_example"
proof -
  let ?left = "top_example\<lparr>fruitsMerged := [0, 0, 0, 0, 96, 48, 24, 12, 6, 3, 1],
            heap := (heap top_example)(3 := (fruitAt 10 192 720 None)\<lparr>popped := True\<rparr>,
                                        4 := (fruitAt 10 448 435 None)\<lparr>popped := True\<rparr>),
            world := [0, 1, 2, 5]\<rparr>"
  have turn: "collisionPair top_example (3, 4) = Inl (TypeError, ?left)"
    by (rule top_pair_throws)
  have batch: "collisionStart top_example [(3, 4)] = Inl (TypeError, ?left)"
    unfolding collisionStart_def using turn by simp
  have before: "length (fruitSizes top_example) - 1 = 10"
    "radius (fruitSizes top_example ! 10) = Some 191.777"
    by simp_all
  show ?thesis
    unfolding batch using before by simp
qed

subsection \<open>The lose condition\<close>

text \<open>
  Claim C2. When the loop reaches a pair of non-static bodies one of which has its top
  edge, \<open>position.y\<close> minus the reported circle radius (0 when missing), below
  \<open>loseHeight = 84\<close>, the batch ends there with the result of \<open>loseGame\<close>: the session state
  is \<open>LOSE\<close>, and the pairs after it are not processed, so that the result is the same for
  every rest \<open>post\<close> of the batch, and the merge counts, the world and the bodies are those
  with which the pair was reached. The batch begins in a session as the handlers build
  it (\<open>as_built\<close>, which holds on every run from page load), with an engine that reports no
  circle radius for bodies made from vertices. The handler adds the radius where the claim
  subtracts it (\<open>lose_lower_edge\<close>); for the non-static bodies of such a session the radius
  is 0, and both values are the height of the centre.
\<close>

theorem lose_precedence:
  assumes built: "as_built g" and silent: "engine_silent (engineRadius g)"
    and reach: "collisionLoop g pre = Inr (Continue g1)"
    and st: "\<not> isStatic (heap g1 a)" "\<not> isStatic (heap g1 b)"
    and low: "position_y (heap g1 a) - circleRadiusOr0 (heap g1 a) < loseHeight \<or>
              position_y (heap g1 b) - circleRadiusOr0 (heap g1 b) < loseHeight"
  shows "collisionStart g (pre @ (a, b) # post) = loseGame g1 \<and>
         stateIndex (after (loseGame g1)) = LOSE \<and>
         fruitsMerged (after (loseGame g1)) = fruitsMerged g1 \<and>
         world (after (loseGame g1)) = world g1 \<and>
         heap (after (loseGame g1)) = heap g1"
proof -
  have "as_built (outcome_state (collisionLoop g pre))"
    using built by (rule as_built_collisionLoop)
  then have built1: "as_built g1" using reach by simp
  have silent1: "engine_silent (engineRadius g1)"
    using silent engineRadius_collisionLoop [OF reach] by simp
  have r0: "circleRadiusOr0 (heap g1 a) = 0" "circleRadiusOr0 (heap g1 b) = 0"
    using built1 silent1 st by (simp_all add: as_built_def)
  have low': "position_y (heap g1 a) + circleRadiusOr0 (heap g1 a) < loseHeight \<or>
              position_y (heap g1 b) + circleRadiusOr0 (heap g1 b) < loseHeight"
    using low unfolding r0 by simp
  have "collisionStart g (pre @ (a, b) # post) = loseGame g1"
    using reach st low' by (rule lose_lower_edge)
  then show ?thesis
    using loseGame_effect [of g1] by simp
qed

theorem lose_precedence_witness:
  "collisionStart lose_example [(3, 4), (4, 5)] = loseGame lose_example \<and>
   stateIndex (after (collisionStart lose_example [(3, 4), (4, 5)])) = LOSE \<and>
   fruitsMerged (after (collisionStart lose_example [(3, 4), (4, 5)])) = replicate 11 0 \<and>
   world (after (collisionStart lose_example [(3, 4), (4, 5)])) = [0, 1, 2, 3, 4, 5]"
  using lose_precedence [of lose_example "[]" lose_example 3 4 "[(4, 5)]"] as_built_lose_example
  by (simp add: lose_example_def loseHeight_def circleRadiusOr0_def)


subsection \<open>The score\<close>

text \<open>
  Claim C4, as the code has it. \<open>calculateScore\<close> sets the score to the sum over the tiers
  \<open>i\<close> of \<open>fruitsMerged[i]\<close> times the score value of tier \<open>i\<close> itself, the tier consumed by
  the merge, not of tier \<open>i + 1\<close>. It does so whenever there are no more counters than
  tiers. With the score values 2, 5, 9 and the counts 1, 0, 0 the score is 2.
\<close>

theorem calculateScore_consumed_tier:
  assumes "length (fruitsMerged g) \<le> length (fruitSizes g)"
  shows "calculateScore g =
     Inr (g\<lparr>score := \<Sum>i<length (fruitsMerged g). fruitsMerged g ! i * scoreValue (fruitSizes g ! i)\<rparr>)"
  using calculateScore_ok [OF assms] by (simp add: scoreSum_def)

theorem calculateScore_consumed_tier_witness:
  "calculateScore (scenario\<lparr>fruitsMerged := [1, 0, 0]\<rparr>) =
     Inr (scenario\<lparr>fruitsMerged := [1, 0, 0], score := 2\<rparr>)"
  using calculateScore_consumed_tier [of "scenario\<lparr>fruitsMerged := [1, 0, 0]\<rparr>"]
  by (simp add: scenario_def threeTiers_def mkFruit_def numeral_3_eq_3)

text \<open>
  The scenario of the specification, run through the handler: two tier-0 fruits merge in a
  session with the catalog \<open>threeTiers\<close>. The counts become 1, 0, 0, the successor is of
  tier 1, and the score is 2, not \<open>1 * 5\<close>.
\<close>

theorem calculateScore_successor_counterexample:
  "map scoreValue (fruitSizes scenario) = [2, 5, 9] \<and>
   collisionStart scenario [(3, 4)] = Inr (after (collisionStart scenario [(3, 4)])) \<and>
   fruitsMerged (after (collisionStart scenario [(3, 4)])) = [1, 0, 0] \<and>
   sizeIndex (heap (after (collisionStart scenario [(3, 4)])) 6) = Some 1 \<and>
   score (after (collisionStart scenario [(3, 4)])) = 2 \<and>
   score (after (collisionStart scenario [(3, 4)])) \<noteq> 1 * 5"
proof -
  obtain g' where g': "collisionPair scenario (3, 4) = Inr (Continue g')"
    "fruitsMerged g' = (fruitsMerged scenario)[0 := fruitsMerged scenario ! 0 + 1]"
    "score g' = scoreSum (fruitSizes scenario) ((fruitsMerged scenario)[0 := fruitsMerged scenario ! 0 + 1])"
    "sizeIndex (heap g' (nextRef scenario)) = Some 1"
    using merge_result [of scenario 3 4 0 1]
    by (auto simp add: scenario_def loseHeight_def circleRadiusOr0_def session_ok_def)
  have m: "(fruitsMerged scenario)[0 := fruitsMerged scenario ! 0 + 1] = [1, 0, 0]"
    by (simp add: scenario_def numeral_3_eq_3)
  have "collisionStart scenario [(3, 4)] = Inr g'"
    using g'(1) by (rule collisionStart_single)
  then show ?thesis
    using g'(2-4) unfolding m by (simp add: scenario_def)
qed


subsection \<open>Lookup by radius\<close>

text \<open>
  Claim C6. In a session whose catalog is the default one (whatever radii are cached on its
  tiers), \<open>lookupFruitIndex\<close> of the computed radius of tier \<open>i\<close> returns \<open>i\<close> for every tier
  but the last, and returns nothing for the last tier; the computed radius is
  \<open>textureSize * physicsScale / 2\<close>, with \<open>scale\<close> standing in for a missing \<open>physicsScale\<close>, and
  a tier matches when its radius differs from the given one by less than 0.5.
\<close>

theorem lookupFruitIndex_round_trip:
  assumes "map (\<lambda>f. f\<lparr>radius := None\<rparr>) (fruitSizes g) = defaultFruitSizes"
  shows "(\<forall>i < length defaultFruitSizes - 1.
            lookupFruitIndex g (physicsRadius (defaultFruitSizes ! i)) = Some i) \<and>
         lookupFruitIndex g (physicsRadius (defaultFruitSizes ! (length defaultFruitSizes - 1))) = None \<and>
         (\<forall>sz. physicsRadius sz =
            textureSize sz * (case physicsScale sz of None \<Rightarrow> scale sz | Some p \<Rightarrow> p) / 2) \<and>
         tolerance = 0.5"
proof -
  have "lookupFruitIndex g (physicsRadius (defaultFruitSizes ! i)) = Some i" if "i < 10" for i
    using that by (simp add: lookupFruitIndex_cache [OF assms] default_findIndex)
  moreover have "lookupFruitIndex g (physicsRadius (defaultFruitSizes ! 10)) = None"
    by (simp add: lookupFruitIndex_cache [OF assms] default_findIndex)
  ultimately show ?thesis
    by (simp add: physicsRadius_def tolerance_def)
qed

theorem lookupFruitIndex_round_trip_witness:
  "lookupFruitIndex merge_example (physicsRadius (defaultFruitSizes ! 3)) = Some 3 \<and>
   lookupFruitIndex merge_example (physicsRadius (defaultFruitSizes ! 10)) = None"
  using lookupFruitIndex_round_trip [of merge_example] default_no_cache
  by (simp add: merge_example_def)


subsection \<open>The highscore\<close>

text \<open>
  Claim C8. Over any sequence of calls of \<open>saveHighscore\<close>, whatever the merge counts (and so
  the recomputed score) before each call, the highscore in \<^verbatim>\<open>Game.cache\<close> never decreases,
  and neither does the one in local storage once it is not above the cached one. For a
  single call: when the recomputed score is below the cached highscore, the call returns
  with the highscore and the storage unchanged; otherwise it overwrites both with the
  score, which is at least the old highscore; and when the score cannot be computed the
  call throws before writing anything.
\<close>

theorem saveHighscore_never_decreases:
  "cache_highscore g \<le> cache_highscore (saveHighscore_calls g css) \<and>
   (stored_ok g \<longrightarrow> stored_ok (saveHighscore_calls g css) \<and>
      (\<forall>h. storage g = Some h \<longrightarrow> (\<exists>h'. storage (saveHighscore_calls g css) = Some h' \<and> h \<le> h'))) \<and>
   (\<forall>g1. calculateScore g = Inr g1 \<and> score g1 < cache_highscore g \<longrightarrow>
      saveHighscore g = Inr g1 \<and> cache_highscore g1 = cache_highscore g \<and> storage g1 = storage g) \<and>
   (\<forall>g1. calculateScore g = Inr g1 \<and> \<not> score g1 < cache_highscore g \<longrightarrow>
      (\<exists>g2. saveHighscore g = Inr g2 \<and> cache_highscore g2 = score g1 \<and>
            storage g2 = Some (score g1) \<and> cache_highscore g \<le> cache_highscore g2)) \<and>
   (\<forall>e. calculateScore g = Inl e \<longrightarrow> saveHighscore g = Inl e \<and> snd e = g)"
proof -
  have f: "cache_highscore g1 = cache_highscore g \<and> storage g1 = storage g"
    if "calculateScore g = Inr g1" for g1
    by (subst (1 2) calculateScore_Inr [OF that], simp)
  have "saveHighscore g = Inr g1 \<and> cache_highscore g1 = cache_highscore g \<and> storage g1 = storage g"
    if "calculateScore g = Inr g1" "score g1 < cache_highscore g" for g1
    using that f [OF that(1)] by (simp add: saveHighscore_result(2))
  moreover have "\<exists>g2. saveHighscore g = Inr g2 \<and> cache_highscore g2 = score g1 \<and>
            storage g2 = Some (score g1) \<and> cache_highscore g \<le> cache_highscore g2"
    if "calculateScore g = Inr g1" "\<not> score g1 < cache_highscore g" for g1
    using that f [OF that(1)] by (simp add: saveHighscore_result(3))
  moreover have "saveHighscore g = Inl e \<and> snd e = g" if "calculateScore g = Inl e" for e
    using that calculateScore_Inl [OF that] by (simp add: saveHighscore_result(1))
  ultimately show ?thesis
    using saveHighscore_calls_monotone [of g css] by blast
qed

theorem saveHighscore_never_decreases_witness:
  "stored_ok scenario \<and>
   cache_highscore scenario \<le>
     cache_highscore (saveHighscore_calls scenario [[5, 0, 0], [1, 0, 0], [7, 0, 0]]) \<and>
   stored_ok (saveHighscore_calls scenario [[5, 0, 0], [1, 0, 0], [7, 0, 0]]) \<and>
   saveHighscore (scenario\<lparr>cache_highscore := 10, fruitsMerged := [1, 0, 0]\<rparr>) =
     Inr (scenario\<lparr>cache_highscore := 10, fruitsMerged := [1, 0, 0], score := 2\<rparr>) \<and>
   (\<exists>g2. saveHighscore (scenario\<lparr>cache_highscore := 10, fruitsMerged := [7, 0, 0]\<rparr>) = Inr g2 \<and>
         cache_highscore g2 = 14 \<and> storage g2 = Some 14) \<and>
   saveHighscore (scenario\<lparr>fruitsMerged := [1, 0, 0, 0]\<rparr>) =
     Inl (TypeError, scenario\<lparr>fruitsMerged := [1, 0, 0, 0]\<rparr>)"
proof -
  let ?low = "scenario\<lparr>cache_highscore := 10, fruitsMerged := [1, 0, 0]\<rparr>"
  let ?high = "scenario\<lparr>cache_highscore := 10, fruitsMerged := [7, 0, 0]\<rparr>"
  let ?bad = "scenario\<lparr>fruitsMerged := [1, 0, 0, 0]\<rparr>"
  note calls = saveHighscore_never_decreases [of scenario "[[5, 0, 0], [1, 0, 0], [7, 0, 0]]"]
  have c1: "cache_highscore scenario \<le>
     cache_highscore (saveHighscore_calls scenario [[5, 0, 0], [1, 0, 0], [7, 0, 0]])"
    using calls by blast
  have c2: "stored_ok (saveHighscore_calls scenario [[5, 0, 0], [1, 0, 0], [7, 0, 0]])"
    using calls stored_ok_scenario by blast
  have "calculateScore ?low = Inr (?low\<lparr>score := 2\<rparr>) \<and>
        score (?low\<lparr>score := 2\<rparr>) < cache_highscore ?low"
    using calculateScore_low by simp
  then have c3: "saveHighscore ?low = Inr (?low\<lparr>score := 2\<rparr>)"
    using saveHighscore_never_decreases [of ?low "[]"] by blast
  have "calculateScore ?high = Inr (?high\<lparr>score := 14\<rparr>) \<and>
        \<not> score (?high\<lparr>score := 14\<rparr>) < cache_highscore ?high"
    using calculateScore_high by simp
  then have "\<exists>g2. saveHighscore ?high = Inr g2 \<and> cache_highscore g2 = score (?high\<lparr>score := 14\<rparr>) \<and>
            storage g2 = Some (score (?high\<lparr>score := 14\<rparr>))"
    using saveHighscore_never_decreases [of ?high "[]"] by blast
  then have c4: "\<exists>g2. saveHighscore ?high = Inr g2 \<and> cache_highscore g2 = 14 \<and> storage g2 = Some 14"
    by simp
  have c5: "saveHighscore ?bad = Inl (TypeError, ?bad)"
    using calculateScore_too_long saveHighscore_never_decreases [of ?bad "[]"] by blast
  show ?thesis
    using stored_ok_scenario c1 c2 c3 c4 c5 by (simp only: simp_thms)
qed

subsection \<open>One merge per body\<close>

text \<open>
  Claim C5: in a batch each fruit is a merge input at most once, and three touching fruits
  of one tier, reported as two overlapping pairs, yield exactly one merge: one successor,
  the first pair retired, the third body untouched. The first half holds for every batch
  (\<open>collisionLoop_merges\<close>), and the second for every tier below the last
  (\<open>triple_contact\<close>). For three fruits of the last tier the handler does not do it, for
  want of the wrap-around of claim C3: the successor is asked for at a tier that the
  catalog does not have.

  In \<open>top_example\<close> the bodies 3, 4 and 5 are unpopped fruits of tier 10 that report no
  circle radius. The batch of the pairs \<open>(3, 4)\<close> and \<open>(4, 5)\<close> ends with a \<^verbatim>\<open>TypeError\<close>
  in the first turn: the bodies 3 and 4 are the merge inputs, they are marked popped and
  have left the world, no successor has been allocated or added, and the second pair has
  not been looked at; body 5 is as it was.
\<close>

theorem triple_top_tier_throws:
  "engine_silent (engineRadius top_example) \<and>
   sizeIndex (heap top_example 3) = Some 10 \<and> sizeIndex (heap top_example 4) = Some 10 \<and>
   sizeIndex (heap top_example 5) = Some 10 \<and>
   circleRadius (heap top_example 3) = None \<and> circleRadius (heap top_example 4) = None \<and>
   circleRadius (heap top_example 5) = None \<and>
   \<not> popped (heap top_example 3) \<and> \<not> popped (heap top_example 4) \<and>
   \<not> popped (heap top_example 5) \<and>
   collisionStart top_example [(3, 4), (4, 5)] =
     Inl (TypeError, after (collisionStart top_example [(3, 4), (4, 5)])) \<and>
   mergeInputs top_example [(3, 4), (4, 5)] = [3, 4] \<and>
   world (after (collisionStart top_example [(3, 4), (4, 5)])) = [0, 1, 2, 5] \<and>
   nextRef (after (collisionStart top_example [(3, 4), (4, 5)])) = nextRef top_example \<and>
   popped (heap (after (collisionStart top_example [(3, 4), (4, 5)])) 3) \<and>
   popped (heap (after (collisionStart top_example [(3, 4), (4, 5)])) 4) \<and>
   heap (after (collisionStart top_example [(3, 4), (4, 5)])) 5 = heap top_example 5"
proof -
  let ?left = "top_example\<lparr>fruitsMerged := [0, 0, 0, 0, 96, 48, 24, 12, 6, 3, 1],
            heap := (heap top_example)(3 := (fruitAt 10 192 720 None)\<lparr>popped := True\<rparr>,
                                        4 := (fruitAt 10 448 435 None)\<lparr>popped := True\<rparr>),
            world := [0, 1, 2, 5]\<rparr>"
  have turn: "collisionPair top_example (3, 4) = Inl (TypeError, ?left)"
    by (rule top_pair_throws)
  have batch: "collisionStart top_example [(3, 4), (4, 5)] = Inl (TypeError, ?left)"
    unfolding collisionStart_def using turn by simp
  have inputs: "mergeInputs top_example [(3, 4), (4, 5)] = [3, 4]"
    using turn by simp
  show ?thesis
    unfolding batch inputs by simp
qed

subsection \<open>The tiers that are dropped\<close>

text \<open>
  Claim C10. Every call of \<open>setNextFruitSize\<close> leaves \<open>nextFruitSize\<close> in \<open>{0, 1, 2, 3, 4}\<close>,
  whether or not the call then fails on the image. Since \<open>currentFruitSize\<close> starts at 0
  and is only assigned from \<open>nextFruitSize\<close>, in every session reached from page load by any
  sequence of events both are below 5 and the catalog has its 11 tiers; so a drop in such
  a session, in state \<open>READY\<close>, returns normally (no catalog index is out of bounds) and
  the fruit it spawns, the body at the first free reference, is a dynamic fruit of tier
  \<open>currentFruitSize\<close>, one of the five smallest.
\<close>

theorem dropped_fruit_tier:
  "nextFruitSize (after (setNextFruitSize g)) \<in> {0, 1, 2, 3, 4} \<and>
   currentFruitSize (run (page_load seed stored volume reported) evs) < 5 \<and>
   nextFruitSize (run (page_load seed stored volume reported) evs) < 5 \<and>
   length (fruitSizes (run (page_load seed stored volume reported) evs)) = 11 \<and>
   (stateIndex (run (page_load seed stored volume reported) evs) = READY \<longrightarrow>
      (\<exists>s. addFruit (run (page_load seed stored volume reported) evs) x mouseX = Inr s \<and>
           sizeIndex (heap s (nextRef (run (page_load seed stored volume reported) evs))) =
             Some (currentFruitSize (run (page_load seed stored volume reported) evs)) \<and>
           \<not> isStatic (heap s (nextRef (run (page_load seed stored volume reported) evs))) \<and>
           currentFruitSize s = nextFruitSize (run (page_load seed stored volume reported) evs)))"
proof -
  have "nextFruitSize (after (setNextFruitSize g)) < 5"
    by (rule setNextFruitSize_below_five)
  then have a: "nextFruitSize (after (setNextFruitSize g)) \<in> {0, 1, 2, 3, 4}"
    by auto
  have inv: "tier_inv (run (page_load seed stored volume reported) evs)"
    by (rule tier_inv_run) (rule tier_inv_page_load)
  show ?thesis
    using a inv addFruit_spawns [OF inv, of x mouseX]
    by (auto simp add: tier_inv_def)
qed

theorem dropped_fruit_tier_witness:
  "stateIndex (run (page_load 1 None 0.7 (\<lambda>vs. None)) [StartGame, ReadyTimeout]) = READY \<and>
   (\<exists>s. addFruit (run (page_load 1 None 0.7 (\<lambda>vs. None)) [StartGame, ReadyTimeout]) 320 320 = Inr s \<and>
        sizeIndex (heap s (nextRef (run (page_load 1 None 0.7 (\<lambda>vs. None)) [StartGame, ReadyTimeout]))) =
          Some (currentFruitSize (run (page_load 1 None 0.7 (\<lambda>vs. None)) [StartGame, ReadyTimeout]))) \<and>
   currentFruitSize (run (page_load 1 None 0.7 (\<lambda>vs. None)) [StartGame, ReadyTimeout]) < 5"
proof -
  have r: "stateIndex (run (page_load 1 None 0.7 (\<lambda>vs. None)) [StartGame, ReadyTimeout]) = READY"
    by (simp add: run_def ready_timeout_def)
  show ?thesis
    using r dropped_fruit_tier [where seed = 1 and stored = None and volume = "0.7" and reported = "\<lambda>vs. None"
        and evs = "[StartGame, ReadyTimeout]" and x = 320 and mouseX = 320]
    by blast
qed

end
